theory Spec2Isabelle
  imports Main "HOL-Library.Word"
begin

unbundle bit_operations_syntax

section \<open>TecnicoFS: the data model of state.h and config.h\<close>

text \<open>
  The model is sequential: one thread runs each operation to its end. The lock and
  unlock calls of the source (pthread mutexes and reader-writer locks that were
  initialised by \<open>state_init\<close>) succeed in a single thread and change nothing that the
  operations read, so they are left out; so is \<open>insert_delay\<close>, a busy wait.

  C types: \<open>int\<close> values (i-numbers, block numbers, handles, flags) are \<open>int\<close>; they
  stay between \<open>-1\<close> and the table sizes, far from overflow. \<open>size_t\<close> values (sizes,
  offsets, byte counts) are 64-bit words, whose \<open>+\<close> and \<open>-\<close> wrap as in C. A pointer
  into a table is the index of the entry; a \<open>NULL\<close> result is \<open>None\<close>. A caller's
  buffer (\<open>void *\<close>) is the memory behind the pointer, a function from byte index to
  byte. A C string is the list of its characters before the terminating NUL.
\<close>

type_synonym byte = "8 word"
type_synonym size_t = "64 word"

abbreviation (input) BLOCK_SIZE :: "'a::numeral" where "BLOCK_SIZE \<equiv> 1024"
abbreviation (input) DATA_BLOCKS :: "'a::numeral" where "DATA_BLOCKS \<equiv> 1024"
abbreviation (input) INODE_TABLE_SIZE :: "'a::numeral" where "INODE_TABLE_SIZE \<equiv> 50"
abbreviation (input) MAX_OPEN_FILES :: "'a::numeral" where "MAX_OPEN_FILES \<equiv> 20"
abbreviation (input) MAX_FILE_NAME :: "'a::numeral" where "MAX_FILE_NAME \<equiv> 40"
abbreviation (input) INT_SIZE :: "'a::numeral" where "INT_SIZE \<equiv> 4"
abbreviation (input) MAX_BYTES :: "'a::numeral" where "MAX_BYTES \<equiv> 272384"
abbreviation (input) MAX_DIRECT_BLOCKS :: "'a::numeral" where "MAX_DIRECT_BLOCKS \<equiv> 10"
abbreviation (input) MAX_BYTES_DIRECT_DATA :: "'a::numeral" where "MAX_BYTES_DIRECT_DATA \<equiv> 10240"
abbreviation (input) FIRST_INDIRECT_BLOCK :: "'a::numeral" where "FIRST_INDIRECT_BLOCK \<equiv> 12"
abbreviation (input) REFERENCE_BLOCK_INDEX :: "'a::numeral" where "REFERENCE_BLOCK_INDEX \<equiv> 11"
abbreviation (input) ROOT_DIR_INUM :: int where "ROOT_DIR_INUM \<equiv> 0"

text \<open>
  Modelled from the spec: operations.h, which declares the open flags, is not among the
  sources. The spec gives bit 0 to \<open>APPEND\<close>, bit 1 to \<open>TRUNC\<close> and bit 6 to \<open>CREATE\<close>;
  the code only tests \<open>flags & FLAG\<close>.
\<close>

definition TFS_O_APPEND :: int where "TFS_O_APPEND = 1"
definition TFS_O_TRUNC :: int where "TFS_O_TRUNC = 2"
definition TFS_O_CREAT :: int where "TFS_O_CREAT = 64"

datatype inode_type = T_FILE | T_DIRECTORY

datatype allocation_state = FREE | TAKEN

record dir_entry =
  d_name :: string
  d_inumber :: int

record inode =
  i_node_type :: inode_type
  i_size :: size_t
  i_data_block :: int
  i_block :: "nat \<Rightarrow> int"

record open_file_entry =
  of_inumber :: int
  of_offset :: size_t

text \<open>
  \<open>sizeof(dir_entry_t)\<close> depends on the pthread types of the platform: with glibc on
  x86-64 (a 40-byte mutex and a 56-byte reader-writer lock after 40 name bytes and a
  4-byte i-number, 8-byte aligned) it is 144, which gives a directory block 7 entries.
\<close>

definition sizeof_dir_entry_t :: nat where "sizeof_dir_entry_t = 144"

definition MAX_DIR_ENTRIES :: nat where
  "MAX_DIR_ENTRIES = BLOCK_SIZE div sizeof_dir_entry_t"

text \<open>
  The block region \<open>fs_data\<close> is declared as an array of \<open>BLOCK_SIZE * DATA_BLOCKS\<close>
  elements of the 4-byte enum \<open>allocation_state_t\<close>, and \<open>data_block_get\<close> returns the
  address of element \<open>block_number * BLOCK_SIZE\<close>: consecutive blocks start
  \<open>block_stride = 4096\<close> bytes apart, and the code reads and copies only the first
  \<open>BLOCK_SIZE\<close> bytes of each. The model keeps those bytes per block. A block is used
  either as raw bytes or, cast to \<open>dir_entry_t *\<close>, as the entry array of a directory;
  the model tags the two uses and does not reinterpret one as the other (the layout of
  \<open>dir_entry_t\<close> is not fixed by the source): such an access has the result \<open>None\<close>,
  as has every store or copy that C leaves undefined (outside its array, through
  \<open>NULL\<close>, or beyond the \<open>BLOCK_SIZE\<close> bytes of the block it addresses).
\<close>

datatype block = is_Bytes: Bytes (bytes_of: "nat \<Rightarrow> byte") | Dir (entries_of: "dir_entry list")

definition block_stride :: nat where "block_stride = BLOCK_SIZE * 4"

record fs_state =
  inode_table :: "nat \<Rightarrow> inode"
  freeinode_ts :: "nat \<Rightarrow> allocation_state"
  fs_data :: "nat \<Rightarrow> block"
  free_blocks :: "nat \<Rightarrow> allocation_state"
  open_file_table :: "nat \<Rightarrow> open_file_entry"
  free_open_file_entries :: "nat \<Rightarrow> allocation_state"

definition valid_inumber :: "int \<Rightarrow> bool" where
  "valid_inumber inumber \<longleftrightarrow> inumber \<ge> 0 \<and> inumber < INODE_TABLE_SIZE"

definition valid_block_number :: "int \<Rightarrow> bool" where
  "valid_block_number block_number \<longleftrightarrow> block_number \<ge> 0 \<and> block_number < DATA_BLOCKS"

definition valid_file_handle :: "int \<Rightarrow> bool" where
  "valid_file_handle file_handle \<longleftrightarrow> file_handle \<ge> 0 \<and> file_handle < MAX_OPEN_FILES"

text \<open>The first-fit scans of the three allocation maps: the least free index below \<open>n\<close>.\<close>

definition first_free :: "(nat \<Rightarrow> allocation_state) \<Rightarrow> nat \<Rightarrow> nat option" where
  "first_free m n = List.find (\<lambda>i. m i = FREE) [0..<n]"

subsection \<open>Memory accesses on blocks\<close>

definition memset_block :: "fs_state \<Rightarrow> nat \<Rightarrow> byte \<Rightarrow> nat \<Rightarrow> fs_state option" where
  "memset_block st b c n =
     (case fs_data st b of
        Bytes f \<Rightarrow>
          if n \<le> BLOCK_SIZE
          then Some (st\<lparr>fs_data := (fs_data st)(b := Bytes (\<lambda>k. if k < n then c else f k))\<rparr>)
          else None
      | Dir es \<Rightarrow> None)"

text \<open>\<open>memcpy(block + off, src, n)\<close>.\<close>

definition memcpy_to_block ::
  "fs_state \<Rightarrow> nat \<Rightarrow> nat \<Rightarrow> (nat \<Rightarrow> byte) \<Rightarrow> nat \<Rightarrow> fs_state option" where
  "memcpy_to_block st b off src n =
     (case fs_data st b of
        Bytes f \<Rightarrow>
          if off + n \<le> BLOCK_SIZE
          then Some (st\<lparr>fs_data := (fs_data st)
                 (b := Bytes (\<lambda>k. if off \<le> k \<and> k < off + n then src (k - off) else f k))\<rparr>)
          else None
      | Dir es \<Rightarrow> None)"

text \<open>\<open>memcpy(dst + at, block + off, n)\<close>: the new contents of the caller's buffer.\<close>

definition memcpy_from_block ::
  "fs_state \<Rightarrow> nat \<Rightarrow> nat \<Rightarrow> (nat \<Rightarrow> byte) \<Rightarrow> nat \<Rightarrow> nat \<Rightarrow> (nat \<Rightarrow> byte) option" where
  "memcpy_from_block st b off dst at n =
     (case fs_data st b of
        Bytes f \<Rightarrow>
          if off + n \<le> BLOCK_SIZE
          then Some (\<lambda>k. if at \<le> k \<and> k < at + n then f (off + (k - at)) else dst k)
          else None
      | Dir es \<Rightarrow> None)"

text \<open>
  \<open>((int *)block)[j] = v\<close>: four bytes, least significant first, at byte \<open>4 * j\<close> from
  the start of block \<open>lb\<close>. The index \<open>j\<close> may be negative or beyond the block: the
  store then lands in the flat array at \<open>block_stride * lb + 4 * j\<close>, which is either
  among the first \<open>BLOCK_SIZE\<close> bytes of some block, or in the unused rest of a stride
  (nothing reads it: the state is unchanged), or outside the array.
\<close>

definition int_byte :: "int \<Rightarrow> nat \<Rightarrow> byte" where
  "int_byte v k = word_of_int (v div 256 ^ k)"

definition store_int :: "fs_state \<Rightarrow> nat \<Rightarrow> int \<Rightarrow> int \<Rightarrow> fs_state option" where
  "store_int st lb j v =
     (let a = int (block_stride * lb) + INT_SIZE * j in
      if a < 0 \<or> a + INT_SIZE > int (block_stride * DATA_BLOCKS) then None
      else
        let b = nat a div block_stride; off = nat a mod block_stride in
        if off + INT_SIZE \<le> BLOCK_SIZE then
          (case fs_data st b of
             Bytes f \<Rightarrow> Some (st\<lparr>fs_data := (fs_data st)
                 (b := Bytes (\<lambda>k. if off \<le> k \<and> k < off + INT_SIZE then int_byte v (k - off) else f k))\<rparr>)
           | Dir es \<Rightarrow> None)
        else Some st)"

section \<open>state.c: allocation maps, i-nodes, the root directory, the open file table\<close>

definition state_init :: "fs_state \<Rightarrow> fs_state" where
  "state_init st =
     st\<lparr>freeinode_ts := (\<lambda>i. FREE), free_blocks := (\<lambda>i. FREE),
        free_open_file_entries := (\<lambda>i. FREE)\<rparr>"

definition data_block_alloc :: "fs_state \<Rightarrow> int \<times> fs_state" where
  "data_block_alloc st =
     (case first_free (free_blocks st) DATA_BLOCKS of
        Some i \<Rightarrow> (int i, st\<lparr>free_blocks := (free_blocks st)(i := TAKEN)\<rparr>)
      | None \<Rightarrow> (-1, st))"

definition data_block_free :: "fs_state \<Rightarrow> int \<Rightarrow> int \<times> fs_state" where
  "data_block_free st block_number =
     (if \<not> valid_block_number block_number then (-1, st)
      else (0, st\<lparr>free_blocks := (free_blocks st)(nat block_number := FREE)\<rparr>))"

definition data_block_get :: "int \<Rightarrow> nat option" where
  "data_block_get block_number =
     (if \<not> valid_block_number block_number then None else Some (nat block_number))"

text \<open>
  \<open>inode_create\<close>. For a directory the loop over the entries of the new block writes
  only \<open>d_inumber = -1\<close>; the name bytes of an entry whose \<open>d_inumber\<close> is \<open>-1\<close> are
  never read (\<open>find_in_dir\<close> tests the i-number first, \<open>add_dir_entry\<close> overwrites
  the name), and the model gives such an entry the empty name. The failure test of the
  source, \<open>b == -1 && data_block_get(b) == NULL\<close>, holds exactly when \<open>b = -1\<close>.
\<close>

definition inode_create :: "fs_state \<Rightarrow> inode_type \<Rightarrow> int \<times> fs_state" where
  "inode_create st n_type =
     (case first_free (freeinode_ts st) INODE_TABLE_SIZE of
        None \<Rightarrow> (-1, st)
      | Some inumber \<Rightarrow>
          let st1 = st\<lparr>freeinode_ts := (freeinode_ts st)(inumber := TAKEN)\<rparr>;
              st2 = st1\<lparr>inode_table := (inode_table st1)
                      (inumber := (inode_table st1 inumber)\<lparr>i_node_type := n_type\<rparr>)\<rparr>
          in
          if n_type = T_DIRECTORY then
            (case data_block_alloc st2 of (b, st3) \<Rightarrow>
               if b = -1 \<and> data_block_get b = None
               then (-1, st3\<lparr>freeinode_ts := (freeinode_ts st3)(inumber := FREE)\<rparr>)
               else
                 (int inumber,
                  st3\<lparr>inode_table := (inode_table st3)
                         (inumber := (inode_table st3 inumber)
                            \<lparr>i_size := BLOCK_SIZE, i_data_block := b, i_block := (\<lambda>k. -1)\<rparr>),
                      fs_data := (fs_data st3)
                         (nat b := Dir (replicate MAX_DIR_ENTRIES \<lparr>d_name = [], d_inumber = -1\<rparr>))\<rparr>))
          else
            (int inumber,
             st2\<lparr>inode_table := (inode_table st2)
                    (inumber := (inode_table st2 inumber)
                       \<lparr>i_size := 0, i_data_block := -1, i_block := (\<lambda>k. -1)\<rparr>)\<rparr>))"

definition inode_delete :: "fs_state \<Rightarrow> int \<Rightarrow> int \<times> fs_state" where
  "inode_delete st inumber =
     (if \<not> valid_inumber inumber \<or> freeinode_ts st (nat inumber) = FREE then (-1, st)
      else
        let st1 = st\<lparr>freeinode_ts := (freeinode_ts st)(nat inumber := FREE)\<rparr>;
            local_inode = inode_table st1 (nat inumber)
        in
        if i_size local_inode > 0 then
          (case data_block_free st1 (i_data_block local_inode) of (r, st2) \<Rightarrow>
             if r = -1 then (-1, st2) else (0, st2))
        else (0, st1))"

definition inode_get :: "int \<Rightarrow> nat option" where
  "inode_get inumber = (if \<not> valid_inumber inumber then None else Some (nat inumber))"

text \<open>
  \<open>strncpy(d_name, sub_name, MAX_FILE_NAME - 1)\<close> followed by
  \<open>d_name[MAX_FILE_NAME - 1] = 0\<close> leaves the first 39 characters of the name;
  \<open>strncmp(d_name, sub_name, MAX_FILE_NAME) == 0\<close> compares the first 40.
\<close>

definition strncpy_name :: "string \<Rightarrow> string" where
  "strncpy_name sub_name = take (MAX_FILE_NAME - 1) sub_name"

definition strncmp_eq :: "string \<Rightarrow> string \<Rightarrow> nat \<Rightarrow> bool" where
  "strncmp_eq a b n \<longleftrightarrow> take n a = take n b"

text \<open>The scan of \<open>add_dir_entry\<close>: the first entry with \<open>d_inumber = -1\<close> is filled.\<close>

fun fill_first_empty :: "dir_entry list \<Rightarrow> int \<Rightarrow> string \<Rightarrow> dir_entry list option" where
  "fill_first_empty [] sub_inumber sub_name = None"
| "fill_first_empty (e # es) sub_inumber sub_name =
     (if d_inumber e = -1
      then Some (\<lparr>d_name = strncpy_name sub_name, d_inumber = sub_inumber\<rparr> # es)
      else map_option ((#) e) (fill_first_empty es sub_inumber sub_name))"

definition add_dir_entry :: "fs_state \<Rightarrow> int \<Rightarrow> int \<Rightarrow> string \<Rightarrow> (int \<times> fs_state) option" where
  "add_dir_entry st inumber sub_inumber sub_name =
     (if \<not> valid_inumber inumber \<or> \<not> valid_inumber sub_inumber then Some (-1, st)
      else
        let local_inode = inode_table st (nat inumber) in
        if i_node_type local_inode \<noteq> T_DIRECTORY then Some (-1, st)
        else if length sub_name = 0 then Some (-1, st)
        else
          (case data_block_get (i_data_block local_inode) of
             None \<Rightarrow> Some (-1, st)
           | Some b \<Rightarrow>
               (case fs_data st b of
                  Bytes f \<Rightarrow> None
                | Dir es \<Rightarrow>
                    (case fill_first_empty es sub_inumber sub_name of
                       Some es' \<Rightarrow> Some (0, st\<lparr>fs_data := (fs_data st)(b := Dir es')\<rparr>)
                     | None \<Rightarrow> Some (-1, st)))))"

text \<open>The scan of \<open>find_in_dir\<close>: the i-number of the first entry in use with that name.\<close>

fun find_entry :: "dir_entry list \<Rightarrow> string \<Rightarrow> int" where
  "find_entry [] sub_name = -1"
| "find_entry (e # es) sub_name =
     (if d_inumber e \<noteq> -1 \<and> strncmp_eq (d_name e) sub_name MAX_FILE_NAME
      then d_inumber e
      else find_entry es sub_name)"

definition find_in_dir :: "fs_state \<Rightarrow> int \<Rightarrow> string \<Rightarrow> int option" where
  "find_in_dir st inumber sub_name =
     (if \<not> valid_inumber inumber \<or> i_node_type (inode_table st (nat inumber)) \<noteq> T_DIRECTORY
      then Some (-1)
      else
        (case data_block_get (i_data_block (inode_table st (nat inumber))) of
           None \<Rightarrow> Some (-1)
         | Some b \<Rightarrow>
             (case fs_data st b of
                Bytes f \<Rightarrow> None
              | Dir es \<Rightarrow> Some (find_entry es sub_name))))"

definition add_to_open_file_table :: "fs_state \<Rightarrow> int \<Rightarrow> size_t \<Rightarrow> int \<times> fs_state" where
  "add_to_open_file_table st inumber offset =
     (case first_free (free_open_file_entries st) MAX_OPEN_FILES of
        Some i \<Rightarrow>
          (int i,
           st\<lparr>free_open_file_entries := (free_open_file_entries st)(i := TAKEN),
              open_file_table := (open_file_table st)
                (i := (open_file_table st i)\<lparr>of_inumber := inumber, of_offset := offset\<rparr>)\<rparr>)
      | None \<Rightarrow> (-1, st))"

definition remove_from_open_file_table :: "fs_state \<Rightarrow> int \<Rightarrow> int \<times> fs_state" where
  "remove_from_open_file_table st fhandle =
     (if \<not> valid_file_handle fhandle \<or> free_open_file_entries st (nat fhandle) \<noteq> TAKEN
      then (-1, st)
      else (0, st\<lparr>free_open_file_entries := (free_open_file_entries st)(nat fhandle := FREE)\<rparr>))"

definition get_open_file_entry :: "int \<Rightarrow> nat option" where
  "get_open_file_entry fhandle =
     (if \<not> valid_file_handle fhandle then None else Some (nat fhandle))"

section \<open>state.c: the read and write engine\<close>

text \<open>
  \<open>inode_upd st ino f\<close> is the state after the assignments \<open>f\<close> to the fields of
  \<open>inode_table[ino]\<close>, \<open>file_upd\<close> the same for \<open>open_file_table[fh]\<close>.
\<close>

definition inode_upd :: "fs_state \<Rightarrow> nat \<Rightarrow> (inode \<Rightarrow> inode) \<Rightarrow> fs_state" where
  "inode_upd st ino f = st\<lparr>inode_table := (inode_table st)(ino := f (inode_table st ino))\<rparr>"

definition file_upd :: "fs_state \<Rightarrow> nat \<Rightarrow> (open_file_entry \<Rightarrow> open_file_entry) \<Rightarrow> fs_state" where
  "file_upd st fh f = st\<lparr>open_file_table := (open_file_table st)(fh := f (open_file_table st fh))\<rparr>"

abbreviation (input) I_BLOCK_SIZE :: "'a::numeral" where "I_BLOCK_SIZE \<equiv> 11"

text \<open>The cast \<open>(int) current_block\<close> of a \<open>size_t\<close>: the low 32 bits, signed.\<close>

definition int_of_size_t :: "size_t \<Rightarrow> int" where
  "int_of_size_t w = sint (ucast w :: 32 word)"

text \<open>
  \<open>inode->i_block[slot] = v\<close> in \<open>direct_block_insert\<close> has no bounds check. For a
  slot in \<open>0 .. 10\<close> it writes the array. Any other slot lands \<open>20 + 4 * slot\<close> bytes
  from the start of the i-node, in the memory of \<open>inode_table_s\<close>:
  \<open>store_inode_table_int\<close> is the store of an \<open>int\<close> at a byte address (a multiple of 4)
  of that struct. With the layout that
  gives \<open>sizeof(dir_entry_t) = 144\<close> (glibc on x86-64) an \<open>inode_t\<close> has 160 bytes:
  \<open>i_node_type\<close> at byte 0, padding at 4, \<open>i_size\<close> at 8, \<open>i_data_block\<close> at 16,
  \<open>i_block\<close> at 20, the mutex at 64 and the reader-writer lock at 104; the 50 i-nodes
  (8000 bytes) are followed by \<open>freeinode_ts\<close> (200 bytes) and the two locks of the table
  (to byte 8296). The store changes the field it lands in. The model keeps no locks and
  no padding: a store that lands there leaves the modelled state as it is (what a later
  lock operation does with the overwritten lock is outside the model). The code
  compares \<open>i_node_type\<close> only with \<open>T_DIRECTORY\<close> and an entry of \<open>freeinode_ts\<close> only
  with \<open>FREE\<close>, so a stored value other than these acts as \<open>T_FILE\<close> and as \<open>TAKEN\<close>.
  What lies before or after \<open>inode_table_s\<close> is not fixed by the source: a store there
  has the result \<open>None\<close>.
\<close>

definition sizeof_inode_t :: nat where "sizeof_inode_t = 160"

definition store_inode_table_int :: "fs_state \<Rightarrow> int \<Rightarrow> int \<Rightarrow> fs_state option" where
  "store_inode_table_int st a v =
     (if a < 0 \<or> a + INT_SIZE > 8296 then None
      else if a < int (sizeof_inode_t * INODE_TABLE_SIZE) then
        let j = nat a div sizeof_inode_t; off = nat a mod sizeof_inode_t in
        if off = 0 then
          Some (inode_upd st j
                  (\<lambda>i. i\<lparr>i_node_type := (if v = 1 then T_DIRECTORY else T_FILE)\<rparr>))
        else if off = 8 then
          Some (inode_upd st j
                  (\<lambda>i. i\<lparr>i_size := (i_size i AND NOT (mask 32)) OR (word_of_int v AND mask 32)\<rparr>))
        else if off = 12 then
          Some (inode_upd st j
                  (\<lambda>i. i\<lparr>i_size := (i_size i AND mask 32)
                                      OR push_bit 32 (word_of_int v AND mask 32)\<rparr>))
        else if off = 16 then Some (inode_upd st j (\<lambda>i. i\<lparr>i_data_block := v\<rparr>))
        else if 20 \<le> off \<and> off < 64 then
          Some (inode_upd st j (\<lambda>i. i\<lparr>i_block := (i_block i)((off - 20) div INT_SIZE := v)\<rparr>))
        else Some st
      else if a < 8200 then
        Some (st\<lparr>freeinode_ts := (freeinode_ts st)
                (nat (a - 8000) div INT_SIZE := (if v = 0 then FREE else TAKEN))\<rparr>)
      else Some st)"

definition store_i_block :: "fs_state \<Rightarrow> nat \<Rightarrow> int \<Rightarrow> int \<Rightarrow> fs_state option" where
  "store_i_block st ino slot v =
     (if 0 \<le> slot \<and> slot < I_BLOCK_SIZE
      then Some (inode_upd st ino (\<lambda>i. i\<lparr>i_block := (i_block i)(nat slot := v)\<rparr>))
      else store_inode_table_int st (int (sizeof_inode_t * ino) + 20 + INT_SIZE * slot) v)"

definition direct_block_insert :: "fs_state \<Rightarrow> nat \<Rightarrow> (int \<times> fs_state) option" where
  "direct_block_insert st ino =
     (case data_block_alloc st of (b, st1) \<Rightarrow>
        let st2 = inode_upd st1 ino (\<lambda>i. i\<lparr>i_data_block := b\<rparr>);
            block = data_block_get (i_data_block (inode_table st2 ino))
        in
        if i_data_block (inode_table st2 ino) = -1 then Some (-1, st2)
        else
          (case block of
             None \<Rightarrow> None
           | Some blk \<Rightarrow>
               (case memset_block st2 blk (-1) BLOCK_SIZE of
                  None \<Rightarrow> None
                | Some st3 \<Rightarrow>
                    (case store_i_block st3 ino (i_data_block (inode_table st3 ino) - 1)
                            (i_data_block (inode_table st3 ino)) of
                       None \<Rightarrow> None
                     | Some st4 \<Rightarrow> Some (0, st4)))))"

text \<open>
  One pass through the body of the loop of \<open>tfs_write_direct_region\<close>: \<open>Inl\<close> is a
  \<open>return -1\<close>, \<open>Inr\<close> carries the state and the loop variables \<open>write_size\<close> and
  \<open>bytes_written\<close> into the next test of the loop condition.
\<close>

definition write_direct_body ::
  "fs_state \<Rightarrow> nat \<Rightarrow> nat \<Rightarrow> (nat \<Rightarrow> byte) \<Rightarrow> size_t \<Rightarrow> size_t
     \<Rightarrow> (fs_state + fs_state \<times> size_t \<times> size_t) option" where
  "write_direct_body st ino fh buffer write_size bytes_written =
     (case (if i_size (inode_table st ino) mod BLOCK_SIZE = 0
            then direct_block_insert st ino else Some (0, st)) of
        None \<Rightarrow> None
      | Some (insert_status, st1) \<Rightarrow>
          if insert_status = -1 then Some (Inl st1)
          else
            (case data_block_get (i_data_block (inode_table st1 ino)) of
               None \<Rightarrow> Some (Inl st1)
             | Some block \<Rightarrow>
                 let off = of_offset (open_file_table st1 fh) mod BLOCK_SIZE;
                     to_write_block =
                       (if write_size \<ge> BLOCK_SIZE \<or> BLOCK_SIZE - off < write_size
                        then BLOCK_SIZE - off else write_size);
                     write_size' =
                       (if write_size \<ge> BLOCK_SIZE \<or> BLOCK_SIZE - off < write_size
                        then write_size - to_write_block else 0)
                 in
                 (case memcpy_to_block st1 block (unat off)
                         (\<lambda>k. buffer (unat bytes_written + k)) (unat to_write_block) of
                    None \<Rightarrow> None
                  | Some st2 \<Rightarrow>
                      let st3 = file_upd st2 fh (\<lambda>f. f\<lparr>of_offset := of_offset f + to_write_block\<rparr>);
                          st4 = inode_upd st3 ino (\<lambda>i. i\<lparr>i_size := i_size i + to_write_block\<rparr>)
                      in Some (Inr (st4, write_size', bytes_written + to_write_block)))))"

function write_direct_loop ::
  "fs_state \<Rightarrow> nat \<Rightarrow> nat \<Rightarrow> (nat \<Rightarrow> byte) \<Rightarrow> size_t \<Rightarrow> size_t \<Rightarrow> nat
     \<Rightarrow> (size_t \<times> fs_state) option" where
  "write_direct_loop st ino fh buffer write_size bytes_written i =
     (if write_size > 0 \<and> i < REFERENCE_BLOCK_INDEX then
        (case write_direct_body st ino fh buffer write_size bytes_written of
           None \<Rightarrow> None
         | Some (Inl st') \<Rightarrow> Some (-1, st')
         | Some (Inr (st', write_size', bytes_written')) \<Rightarrow>
             write_direct_loop st' ino fh buffer write_size' bytes_written' (i + 1))
      else Some (bytes_written, st))"
  by pat_completeness auto
termination
  by (relation "measure (\<lambda>(st, ino, fh, buffer, write_size, bytes_written, i). REFERENCE_BLOCK_INDEX - i)") auto

declare write_direct_loop.simps [simp del]

text \<open>The result is the \<open>ssize_t\<close> bit pattern: \<open>-1\<close> is the word of all ones.\<close>

definition tfs_write_direct_region ::
  "fs_state \<Rightarrow> nat \<Rightarrow> nat \<Rightarrow> (nat \<Rightarrow> byte) \<Rightarrow> size_t \<Rightarrow> (size_t \<times> fs_state) option" where
  "tfs_write_direct_region st ino fh buffer write_size =
     write_direct_loop st ino fh buffer write_size 0 0"

definition indirect_block_insert :: "fs_state \<Rightarrow> nat \<Rightarrow> (int \<times> fs_state) option" where
  "indirect_block_insert st ino =
     (let last_i_block = data_block_get (i_block (inode_table st ino) MAX_DIRECT_BLOCKS) in
      case data_block_alloc st of (block_number, st1) \<Rightarrow>
        if block_number = -1 then Some (-1, st1)
        else
          let st2 = inode_upd st1 ino (\<lambda>i. i\<lparr>i_data_block := block_number\<rparr>) in
          (case data_block_get block_number of
             None \<Rightarrow> None
           | Some blk \<Rightarrow>
               (case memset_block st2 blk (-1) (BLOCK_SIZE div INT_SIZE) of
                  None \<Rightarrow> None
                | Some st3 \<Rightarrow>
                    (case last_i_block of
                       None \<Rightarrow> None
                     | Some lb \<Rightarrow>
                         (case store_int st3 lb (block_number - FIRST_INDIRECT_BLOCK) block_number of
                            None \<Rightarrow> None
                          | Some st4 \<Rightarrow> Some (0, st4))))))"

text \<open>
  \<open>tfs_handle_indirect_block\<close>: the \<open>memset\<close> has the length \<open>sizeof(void *)\<close>, 8 bytes.
\<close>

definition tfs_handle_indirect_block :: "fs_state \<Rightarrow> nat \<Rightarrow> (int \<times> fs_state) option" where
  "tfs_handle_indirect_block st ino =
     (case data_block_alloc st of (block_number, st1) \<Rightarrow>
        if block_number = -1 then Some (-1, st1)
        else
          let st2 = inode_upd st1 ino
                      (\<lambda>i. i\<lparr>i_block := (i_block i)(MAX_DIRECT_BLOCKS := block_number),
                              i_data_block := block_number\<rparr>)
          in
          (case data_block_get (i_data_block (inode_table st2 ino)) of
             None \<Rightarrow> None
           | Some blk \<Rightarrow>
               (case memset_block st2 blk (-1) 8 of
                  None \<Rightarrow> None
                | Some st3 \<Rightarrow> Some (0, st3))))"

text \<open>The clamp at the head of the loop body of \<open>tfs_write_indirect_region\<close>.\<close>

definition clamp_write_size :: "fs_state \<Rightarrow> nat \<Rightarrow> size_t \<Rightarrow> size_t" where
  "clamp_write_size st ino write_size =
     (if i_size (inode_table st ino) + write_size > MAX_BYTES
      then MAX_BYTES - i_size (inode_table st ino) else write_size)"

definition write_indirect_body ::
  "fs_state \<Rightarrow> nat \<Rightarrow> nat \<Rightarrow> (nat \<Rightarrow> byte) \<Rightarrow> size_t \<Rightarrow> size_t
     \<Rightarrow> (fs_state + fs_state \<times> size_t \<times> size_t) option" where
  "write_indirect_body st ino fh buffer write_size0 bytes_written =
     (let write_size = clamp_write_size st ino write_size0 in
      case (if i_size (inode_table st ino) mod BLOCK_SIZE = 0
            then indirect_block_insert st ino else Some (0, st)) of
        None \<Rightarrow> None
      | Some (insert_status, st1) \<Rightarrow>
          if insert_status = -1 then Some (Inl st1)
          else
            (case data_block_get (i_data_block (inode_table st1 ino)) of
               None \<Rightarrow> Some (Inl st1)
             | Some block \<Rightarrow>
                 let off = of_offset (open_file_table st1 fh) mod BLOCK_SIZE;
                     to_write_block =
                       (if write_size \<ge> BLOCK_SIZE \<or> BLOCK_SIZE - off < write_size
                        then BLOCK_SIZE - off else write_size);
                     write_size' =
                       (if write_size \<ge> BLOCK_SIZE \<or> BLOCK_SIZE - off < write_size
                        then write_size - to_write_block else 0)
                 in
                 (case memcpy_to_block st1 block (unat off)
                         (\<lambda>k. buffer (unat bytes_written + k)) (unat to_write_block) of
                    None \<Rightarrow> None
                  | Some st2 \<Rightarrow>
                      let st3 = file_upd st2 fh (\<lambda>f. f\<lparr>of_offset := of_offset f + to_write_block\<rparr>);
                          st4 = inode_upd st3 ino (\<lambda>i. i\<lparr>i_size := i_size i + to_write_block\<rparr>)
                      in Some (Inr (st4, write_size', bytes_written + to_write_block)))))"

text \<open>
  The loop of \<open>tfs_write_indirect_region\<close> has no bound on its counter. It ends because
  the clamp leaves \<open>i_size + write_size \<le> MAX_BYTES\<close> (in 64-bit arithmetic), which
  every further pass keeps while \<open>write_size\<close> decreases. The lemmas below are the
  facts of that argument.
\<close>

lemma inode_upd_simps [simp]:
  "inode_table (inode_upd st ino f) = (inode_table st)(ino := f (inode_table st ino))"
  "freeinode_ts (inode_upd st ino f) = freeinode_ts st"
  "fs_data (inode_upd st ino f) = fs_data st"
  "free_blocks (inode_upd st ino f) = free_blocks st"
  "open_file_table (inode_upd st ino f) = open_file_table st"
  "free_open_file_entries (inode_upd st ino f) = free_open_file_entries st"
  by (simp_all add: inode_upd_def)

lemma file_upd_simps [simp]:
  "inode_table (file_upd st fh f) = inode_table st"
  "freeinode_ts (file_upd st fh f) = freeinode_ts st"
  "fs_data (file_upd st fh f) = fs_data st"
  "free_blocks (file_upd st fh f) = free_blocks st"
  "open_file_table (file_upd st fh f) = (open_file_table st)(fh := f (open_file_table st fh))"
  "free_open_file_entries (file_upd st fh f) = free_open_file_entries st"
  by (simp_all add: file_upd_def)

lemma memset_block_frame:
  assumes "memset_block st b c n = Some st'"
  shows "inode_table st' = inode_table st" "freeinode_ts st' = freeinode_ts st"
    "free_blocks st' = free_blocks st" "open_file_table st' = open_file_table st"
    "free_open_file_entries st' = free_open_file_entries st"
  using assms by (auto simp: memset_block_def split: block.splits if_splits)

lemma memcpy_to_block_frame:
  assumes "memcpy_to_block st b off src n = Some st'"
  shows "inode_table st' = inode_table st" "freeinode_ts st' = freeinode_ts st"
    "free_blocks st' = free_blocks st" "open_file_table st' = open_file_table st"
    "free_open_file_entries st' = free_open_file_entries st"
  using assms by (auto simp: memcpy_to_block_def split: block.splits if_splits)

lemma store_int_frame:
  assumes "store_int st lb j v = Some st'"
  shows "inode_table st' = inode_table st" "freeinode_ts st' = freeinode_ts st"
    "free_blocks st' = free_blocks st" "open_file_table st' = open_file_table st"
    "free_open_file_entries st' = free_open_file_entries st"
  using assms by (auto simp: store_int_def Let_def split: block.splits if_splits)

lemma data_block_alloc_frame:
  assumes "data_block_alloc st = (b, st')"
  shows "inode_table st' = inode_table st" "freeinode_ts st' = freeinode_ts st"
    "fs_data st' = fs_data st" "open_file_table st' = open_file_table st"
    "free_open_file_entries st' = free_open_file_entries st"
  using assms by (auto simp: data_block_alloc_def split: option.splits)

lemma indirect_block_insert_size:
  assumes "indirect_block_insert st ino = Some (r, st')"
  shows "i_size (inode_table st' ino) = i_size (inode_table st ino)"
  using assms
  by (auto simp: indirect_block_insert_def Let_def memset_block_frame store_int_frame
      data_block_alloc_frame split: prod.splits option.splits if_splits)

lemma chunk_le:
  fixes w off :: size_t
  assumes "off < 1024" "w \<ge> 1024 \<or> 1024 - off < w"
  shows "unat (w - (1024 - off)) < unat w" "1024 - off \<le> w"
  using assms by unat_arith+

lemma write_indirect_body_measure:
  assumes "write_indirect_body st ino fh buffer ws bw = Some (Inr (st', ws', bw'))"
  shows "ws' = 0 \<or> (clamp_write_size st' ino ws' = ws' \<and> unat ws' < unat (clamp_write_size st ino ws))"
proof -
  define s where "s = i_size (inode_table st ino)"
  define w where "w = clamp_write_size st ino ws"
  have sw: "s + w \<le> MAX_BYTES"
    by (simp add: w_def s_def clamp_write_size_def not_less)
  from assms obtain st1 r blk where
    ins: "(if s mod BLOCK_SIZE = 0 then indirect_block_insert st ino else Some (0, st)) = Some (r, st1)"
    by (auto simp: write_indirect_body_def s_def Let_def split: option.splits prod.splits if_splits)
  have s1: "i_size (inode_table st1 ino) = s"
    using ins by (auto simp: s_def indirect_block_insert_size split: if_splits)
  define off where "off = of_offset (open_file_table st1 fh) mod BLOCK_SIZE"
  have off: "off < 1024" by (simp add: off_def word_mod_less_divisor)
  show ?thesis
  proof (cases "w \<ge> BLOCK_SIZE \<or> BLOCK_SIZE - off < w")
    case False
    then have "ws' = 0"
      using assms ins
      by (auto simp: write_indirect_body_def Let_def w_def s_def off_def
          split: option.splits prod.splits if_splits)
    then show ?thesis by simp
  next
    case True
    then have ws': "ws' = w - (1024 - off)" and s': "i_size (inode_table st' ino) = s + (1024 - off)"
      using assms ins s1
      by (auto simp: write_indirect_body_def Let_def w_def s_def off_def memcpy_to_block_frame
          split: option.splits prod.splits if_splits)
    have "s + (1024 - off) + (w - (1024 - off)) = s + w" by simp
    then have "clamp_write_size st' ino ws' = ws'"
      using sw by (auto simp: clamp_write_size_def s' ws' dest: leD)
    moreover have "unat ws' < unat w"
      unfolding ws' using chunk_le(1)[OF off True] .
    ultimately show ?thesis by (simp add: w_def)
  qed
qed

function write_indirect_loop ::
  "fs_state \<Rightarrow> nat \<Rightarrow> nat \<Rightarrow> (nat \<Rightarrow> byte) \<Rightarrow> size_t \<Rightarrow> size_t
     \<Rightarrow> (size_t \<times> fs_state) option" where
  "write_indirect_loop st ino fh buffer write_size bytes_written =
     (if write_size > 0 then
        (case write_indirect_body st ino fh buffer write_size bytes_written of
           None \<Rightarrow> None
         | Some (Inl st') \<Rightarrow> Some (-1, st')
         | Some (Inr (st', write_size', bytes_written')) \<Rightarrow>
             write_indirect_loop st' ino fh buffer write_size' bytes_written')
      else Some (bytes_written, st))"
  by pat_completeness auto
termination
  apply (relation "measure (\<lambda>(st, ino, fh, buffer, write_size, bytes_written).
         if write_size = 0 then 0 else Suc (unat (clamp_write_size st ino write_size)))")
   apply simp
  apply clarsimp
  apply (drule write_indirect_body_measure)
  apply auto
  done

declare write_indirect_loop.simps [simp del]

definition tfs_write_indirect_region ::
  "fs_state \<Rightarrow> nat \<Rightarrow> nat \<Rightarrow> (nat \<Rightarrow> byte) \<Rightarrow> size_t \<Rightarrow> (size_t \<times> fs_state) option" where
  "tfs_write_indirect_region st ino fh buffer write_size =
     write_indirect_loop st ino fh buffer write_size 0"

text \<open>
  The read loops. \<open>current_block\<close> and \<open>block_offset\<close> are recomputed from
  \<open>of_offset\<close> at the end of each pass and before the first, that is at every test of
  the loop condition. \<open>base\<close> is the offset of the pointer the caller passes
  (\<open>buffer + total_read\<close> in \<open>tfs_read\<close>) within the caller's buffer.
\<close>

lemma read_chunk_less:
  fixes to_read off :: size_t
  assumes "off < 1024" "to_read + off > 1024"
  shows "unat (to_read - (1024 - off)) < unat to_read"
  using assms by unat_arith

function read_direct_loop ::
  "fs_state \<Rightarrow> nat \<Rightarrow> size_t \<Rightarrow> (nat \<Rightarrow> byte) \<Rightarrow> nat \<Rightarrow> size_t
     \<Rightarrow> (size_t \<times> fs_state \<times> (nat \<Rightarrow> byte)) option" where
  "read_direct_loop st fh to_read buffer base total_read =
     (let current_block = of_offset (open_file_table st fh) div BLOCK_SIZE + 1;
          block_offset = of_offset (open_file_table st fh) mod BLOCK_SIZE
      in
      if to_read > 0 \<and> current_block \<le> MAX_DIRECT_BLOCKS then
        (case data_block_get (int_of_size_t current_block) of
           None \<Rightarrow> Some (-1, st, buffer)
         | Some block \<Rightarrow>
             let to_read_block =
                   (if to_read + block_offset > BLOCK_SIZE then BLOCK_SIZE - block_offset else to_read);
                 to_read' =
                   (if to_read + block_offset > BLOCK_SIZE then to_read - to_read_block else 0)
             in
             (case memcpy_from_block st block (unat block_offset) buffer
                     (base + unat total_read) (unat to_read_block) of
                None \<Rightarrow> None
              | Some buffer' \<Rightarrow>
                  read_direct_loop
                    (file_upd st fh (\<lambda>f. f\<lparr>of_offset := of_offset f + to_read_block\<rparr>))
                    fh to_read' buffer' base (total_read + to_read_block)))
      else Some (total_read, st, buffer))"
  by pat_completeness auto
termination
  apply (relation "measure (\<lambda>(st, fh, to_read, buffer, base, total_read). unat to_read)")
   apply simp
  apply (auto simp: word_greater_zero_iff unat_gt_0 intro!: read_chunk_less word_mod_less_divisor)
  done

declare read_direct_loop.simps [simp del]

definition tfs_read_direct_region ::
  "fs_state \<Rightarrow> nat \<Rightarrow> size_t \<Rightarrow> (nat \<Rightarrow> byte) \<Rightarrow> nat
     \<Rightarrow> (size_t \<times> fs_state \<times> (nat \<Rightarrow> byte)) option" where
  "tfs_read_direct_region st fh to_read buffer base =
     (if of_offset (open_file_table st fh) + to_read \<le> MAX_BYTES_DIRECT_DATA
      then read_direct_loop st fh to_read buffer base 0
      else Some (0, st, buffer))"

function read_indirect_loop ::
  "fs_state \<Rightarrow> nat \<Rightarrow> size_t \<Rightarrow> (nat \<Rightarrow> byte) \<Rightarrow> nat \<Rightarrow> size_t
     \<Rightarrow> (size_t \<times> fs_state \<times> (nat \<Rightarrow> byte)) option" where
  "read_indirect_loop st fh to_read buffer base total_read =
     (let current_block = of_offset (open_file_table st fh) div BLOCK_SIZE + 2;
          block_offset = of_offset (open_file_table st fh) mod BLOCK_SIZE
      in
      if to_read > 0 then
        (case data_block_get (int_of_size_t current_block) of
           None \<Rightarrow> Some (-1, st, buffer)
         | Some block \<Rightarrow>
             let to_read_block =
                   (if to_read + block_offset > BLOCK_SIZE then BLOCK_SIZE - block_offset else to_read);
                 to_read' =
                   (if to_read + block_offset > BLOCK_SIZE then to_read - to_read_block else 0)
             in
             (case memcpy_from_block st block (unat block_offset) buffer
                     (base + unat total_read) (unat to_read_block) of
                None \<Rightarrow> None
              | Some buffer' \<Rightarrow>
                  read_indirect_loop
                    (file_upd st fh (\<lambda>f. f\<lparr>of_offset := of_offset f + to_read_block\<rparr>))
                    fh to_read' buffer' base (total_read + to_read_block)))
      else Some (total_read, st, buffer))"
  by pat_completeness auto
termination
  apply (relation "measure (\<lambda>(st, fh, to_read, buffer, base, total_read). unat to_read)")
   apply simp
  apply (auto simp: word_greater_zero_iff unat_gt_0 intro!: read_chunk_less word_mod_less_divisor)
  done

declare read_indirect_loop.simps [simp del]

definition tfs_read_indirect_region ::
  "fs_state \<Rightarrow> nat \<Rightarrow> size_t \<Rightarrow> (nat \<Rightarrow> byte) \<Rightarrow> nat
     \<Rightarrow> (size_t \<times> fs_state \<times> (nat \<Rightarrow> byte)) option" where
  "tfs_read_indirect_region st fh to_read buffer base =
     read_indirect_loop st fh to_read buffer base 0"

section \<open>operations.c: the public operations\<close>

definition tfs_init :: "fs_state \<Rightarrow> int \<times> fs_state" where
  "tfs_init st =
     (case inode_create (state_init st) T_DIRECTORY of (root, st') \<Rightarrow>
        if root \<noteq> ROOT_DIR_INUM then (-1, st') else (0, st'))"

text \<open>A path is \<open>None\<close> for the \<open>NULL\<close> pointer.\<close>

definition valid_pathname :: "string option \<Rightarrow> bool" where
  "valid_pathname name \<longleftrightarrow>
     (case name of None \<Rightarrow> False | Some s \<Rightarrow> length s > 1 \<and> s ! 0 = CHR ''/'')"

definition tfs_lookup :: "fs_state \<Rightarrow> string option \<Rightarrow> int option" where
  "tfs_lookup st name =
     (if \<not> valid_pathname name then Some (-1)
      else find_in_dir st ROOT_DIR_INUM (tl (the name)))"

definition tfs_open :: "fs_state \<Rightarrow> string option \<Rightarrow> int \<Rightarrow> (int \<times> fs_state) option" where
  "tfs_open st name flags =
     (if \<not> valid_pathname name then Some (-1, st)
      else
        (case tfs_lookup st name of
           None \<Rightarrow> None
         | Some inum \<Rightarrow>
             if inum \<ge> 0 then
               (case inode_get inum of
                  None \<Rightarrow> Some (-1, st)
                | Some inode \<Rightarrow>
                    (case (if flags AND TFS_O_TRUNC \<noteq> 0 \<and> i_size (inode_table st inode) > 0
                           then (case data_block_free st (i_data_block (inode_table st inode)) of
                                   (r, st1) \<Rightarrow>
                                     if r = -1 then (r, st1)
                                     else (r, inode_upd st1 inode (\<lambda>i. i\<lparr>i_size := 0\<rparr>)))
                           else (0, st)) of
                       (r, st2) \<Rightarrow>
                         if r = -1 then Some (-1, st2)
                         else
                           let offset = (if flags AND TFS_O_APPEND \<noteq> 0
                                         then i_size (inode_table st2 inode) else 0)
                           in Some (add_to_open_file_table st2 inum offset)))
             else if flags AND TFS_O_CREAT \<noteq> 0 then
               (case inode_create st T_FILE of (inum', st1) \<Rightarrow>
                  if inum' = -1 then Some (-1, st1)
                  else
                    (case add_dir_entry st1 ROOT_DIR_INUM inum' (tl (the name)) of
                       None \<Rightarrow> None
                     | Some (r, st2) \<Rightarrow>
                         if r = -1 then Some (-1, snd (inode_delete st2 inum'))
                         else Some (add_to_open_file_table st2 inum' 0)))
             else Some (-1, st)))"

definition tfs_close :: "fs_state \<Rightarrow> int \<Rightarrow> int \<times> fs_state" where
  "tfs_close st fhandle = remove_from_open_file_table st fhandle"

text \<open>
  \<open>tfs_write\<close> and \<open>tfs_read\<close> return an \<open>ssize_t\<close>: the signed reading \<open>sint\<close> of the
  64-bit result. \<open>tfs_read\<close> also returns the caller's buffer after the copies.
\<close>

definition alloc_indirect_if_unset :: "fs_state \<Rightarrow> nat \<Rightarrow> fs_state option" where
  "alloc_indirect_if_unset st inode =
     (if i_block (inode_table st inode) MAX_DIRECT_BLOCKS = -1
      then map_option snd (tfs_handle_indirect_block st inode)
      else Some st)"

definition tfs_write :: "fs_state \<Rightarrow> int \<Rightarrow> (nat \<Rightarrow> byte) \<Rightarrow> size_t \<Rightarrow> (int \<times> fs_state) option" where
  "tfs_write st fhandle buffer to_write =
     (if to_write = 0 then Some (-1, st)
      else
        (case get_open_file_entry fhandle of
           None \<Rightarrow> Some (-1, st)
         | Some file \<Rightarrow>
             (case inode_get (of_inumber (open_file_table st file)) of
                None \<Rightarrow> Some (-1, st)
              | Some inode \<Rightarrow>
                  if i_size (inode_table st inode) + to_write \<le> MAX_BYTES_DIRECT_DATA then
                    (case tfs_write_direct_region st inode file buffer to_write of
                       None \<Rightarrow> None
                     | Some (direct_bytes, st1) \<Rightarrow>
                         if direct_bytes = -1 then Some (-1, st1)
                         else Some (sint direct_bytes, st1))
                  else if i_size (inode_table st inode) \<ge> MAX_BYTES_DIRECT_DATA then
                    (case alloc_indirect_if_unset st inode of
                       None \<Rightarrow> None
                     | Some st1 \<Rightarrow>
                         (case tfs_write_indirect_region st1 inode file buffer to_write of
                            None \<Rightarrow> None
                          | Some (indirect_bytes, st2) \<Rightarrow>
                              if indirect_bytes = -1 then Some (-1, st2)
                              else Some (sint indirect_bytes, st2)))
                  else
                    let direct_size = MAX_BYTES_DIRECT_DATA - i_size (inode_table st inode);
                        indirect_size = to_write - direct_size
                    in
                    (case tfs_write_direct_region st inode file buffer direct_size of
                       None \<Rightarrow> None
                     | Some (direct_bytes, st1) \<Rightarrow>
                         (case alloc_indirect_if_unset st1 inode of
                            None \<Rightarrow> None
                          | Some st2 \<Rightarrow>
                              if direct_bytes = -1 then Some (-1, st2)
                              else
                                (case tfs_write_indirect_region st2 inode file
                                        (\<lambda>k. buffer (unat direct_size + k)) indirect_size of
                                   None \<Rightarrow> None
                                 | Some (indirect_bytes, st3) \<Rightarrow>
                                     if indirect_bytes = -1 then Some (-1, st3)
                                     else Some (sint (direct_bytes + indirect_bytes), st3)))))))"

definition tfs_read ::
  "fs_state \<Rightarrow> int \<Rightarrow> (nat \<Rightarrow> byte) \<Rightarrow> size_t \<Rightarrow> (int \<times> fs_state \<times> (nat \<Rightarrow> byte)) option" where
  "tfs_read st fhandle buffer len =
     (if len = 0 then Some (-1, st, buffer)
      else
        (case get_open_file_entry fhandle of
           None \<Rightarrow> Some (-1, st, buffer)
         | Some file \<Rightarrow>
             (case inode_get (of_inumber (open_file_table st file)) of
                None \<Rightarrow> Some (-1, st, buffer)
              | Some inode \<Rightarrow>
                  let to_read0 = i_size (inode_table st inode) - of_offset (open_file_table st file);
                      to_read = (if to_read0 > len then len else to_read0)
                  in
                  if of_offset (open_file_table st file) + to_read \<le> MAX_BYTES_DIRECT_DATA then
                    (case tfs_read_direct_region st file to_read buffer 0 of
                       None \<Rightarrow> None
                     | Some (direct_read, st1, buffer1) \<Rightarrow>
                         if direct_read = -1 then Some (-1, st1, buffer1)
                         else Some (sint direct_read, st1, buffer1))
                  else if of_offset (open_file_table st file) \<ge> MAX_BYTES_DIRECT_DATA then
                    (case tfs_read_indirect_region st file to_read buffer 0 of
                       None \<Rightarrow> None
                     | Some (indirect_read, st1, buffer1) \<Rightarrow>
                         if indirect_read = -1 then Some (-1, st1, buffer1)
                         else Some (sint indirect_read, st1, buffer1))
                  else
                    let bytes_to_read_in_direct_region =
                          (if to_read + of_offset (open_file_table st file) > MAX_BYTES_DIRECT_DATA
                           then MAX_BYTES_DIRECT_DATA - of_offset (open_file_table st file) else 0);
                        to_read' = to_read - bytes_to_read_in_direct_region
                    in
                    (case tfs_read_direct_region st file bytes_to_read_in_direct_region buffer 0 of
                       None \<Rightarrow> None
                     | Some (direct_read, st1, buffer1) \<Rightarrow>
                         if direct_read = -1 then Some (-1, st1, buffer1)
                         else
                           (case tfs_read_indirect_region st1 file to_read' buffer1 (unat direct_read) of
                              None \<Rightarrow> None
                            | Some (indirect_read, st2, buffer2) \<Rightarrow>
                                if indirect_read = -1 then Some (-1, st2, buffer2)
                                else Some (sint (direct_read + indirect_read), st2, buffer2))))))"

text \<open>
  The memory of the process before \<open>tfs_init\<close>: the three state structs have static
  storage, which C initialises with zeros (\<open>T_FILE\<close> and \<open>FREE\<close> are the enumerators 0).
\<close>

definition boot_state :: fs_state where
  "boot_state =
     \<lparr>inode_table = (\<lambda>i. \<lparr>i_node_type = T_FILE, i_size = 0, i_data_block = 0, i_block = (\<lambda>k. 0)\<rparr>),
      freeinode_ts = (\<lambda>i. FREE),
      fs_data = (\<lambda>b. Bytes (\<lambda>k. 0)),
      free_blocks = (\<lambda>b. FREE),
      open_file_table = (\<lambda>h. \<lparr>of_inumber = 0, of_offset = 0\<rparr>),
      free_open_file_entries = (\<lambda>h. FREE)\<rparr>"

section \<open>Facts about the scans and the empty loops\<close>

lemma first_free_Some_iff:
  "first_free m n = Some k \<longleftrightarrow> k < n \<and> m k = FREE \<and> (\<forall>i<k. m i \<noteq> FREE)"
  unfolding first_free_def find_Some_iff
  by auto


lemma first_free_least:
  assumes "k < n" "m k = FREE" "\<And>i. i < k \<Longrightarrow> m i = TAKEN"
  shows "first_free m n = Some k"
  unfolding first_free_Some_iff using assms by auto

lemma read_direct_loop_zero: "read_direct_loop st fh 0 buffer base total_read = Some (total_read, st, buffer)"
  by (simp add: read_direct_loop.simps[of st fh 0])

lemma read_indirect_loop_zero: "read_indirect_loop st fh 0 buffer base total_read = Some (total_read, st, buffer)"
  by (simp add: read_indirect_loop.simps[of st fh 0])

section \<open>Reading at the end of the file\<close>

lemma tfs_read_eof:
  assumes "valid_file_handle fh"
    and "valid_inumber (of_inumber (open_file_table st (nat fh)))"
    and "of_offset (open_file_table st (nat fh))
           = i_size (inode_table st (nat (of_inumber (open_file_table st (nat fh)))))"
    and "len \<noteq> 0"
  shows "tfs_read st fh buffer len = Some (0, st, buffer)"
  using assms
  by (auto simp: tfs_read_def get_open_file_entry_def inode_get_def Let_def
      tfs_read_direct_region_def tfs_read_indirect_region_def
      read_direct_loop_zero read_indirect_loop_zero not_le dest: less_imp_le)

text \<open>
  Claim C9. For a handle in range whose entry names a valid i-number and whose offset
  equals the size of that i-node, \<open>tfs_read\<close> with a positive length returns 0 (not
  \<open>-1\<close>), copies nothing into the buffer and leaves the whole state, the offset
  included, as it was.
\<close>

theorem tfs_read_at_end_of_file:
  assumes "valid_file_handle fh"
    and "valid_inumber (of_inumber (open_file_table st (nat fh)))"
    and "of_offset (open_file_table st (nat fh))
           = i_size (inode_table st (nat (of_inumber (open_file_table st (nat fh)))))"
    and "len \<noteq> 0"
  shows "tfs_read st fh buffer len = Some (0, st, buffer)"
  using assms by (rule tfs_read_eof)

section \<open>The state after \<open>tfs_init\<close>\<close>

lemma first_free_0: "m 0 = FREE \<Longrightarrow> 0 < n \<Longrightarrow> first_free m n = Some 0"
  by (rule first_free_least) auto

lemma first_free_1: "m 0 = TAKEN \<Longrightarrow> m (Suc 0) = FREE \<Longrightarrow> Suc 0 < n \<Longrightarrow> first_free m n = Some (Suc 0)"
  by (rule first_free_least) auto

definition init_state :: fs_state where
  "init_state = snd (tfs_init boot_state)"

lemma tfs_init_boot:
  "tfs_init boot_state = (0, init_state)"
  "init_state = boot_state
     \<lparr>freeinode_ts := (\<lambda>i. FREE)(0 := TAKEN),
      free_blocks := (\<lambda>b. FREE)(0 := TAKEN),
      free_open_file_entries := (\<lambda>h. FREE),
      inode_table := (inode_table boot_state)
        (0 := \<lparr>i_node_type = T_DIRECTORY, i_size = BLOCK_SIZE, i_data_block = 0, i_block = (\<lambda>k. -1)\<rparr>),
      fs_data := (fs_data boot_state)
        (0 := Dir (replicate MAX_DIR_ENTRIES \<lparr>d_name = [], d_inumber = -1\<rparr>))\<rparr>"
  by (simp_all add: init_state_def tfs_init_def state_init_def inode_create_def first_free_0 data_block_alloc_def
      data_block_get_def valid_block_number_def boot_state_def Let_def)

section \<open>Word arithmetic of the copy loops\<close>

lemma chunk_min:
  fixes ws off :: size_t
  assumes "off < 1024"
  shows "(if ws \<ge> 1024 \<or> 1024 - off < ws then 1024 - off else ws) = min ws (1024 - off)"
    and "(if ws \<ge> 1024 \<or> 1024 - off < ws then ws - (if ws \<ge> 1024 \<or> 1024 - off < ws then 1024 - off else ws) else 0) = ws - min ws (1024 - off)"
  using assms by (auto simp: min_def word_le_nat_alt word_less_nat_alt word_unat_eq_iff unat_sub)

lemma unat_mod_1024: "unat ((w::size_t) mod 1024) = unat w mod 1024"
  by (simp add: unat_mod)

lemma unat_div_1024: "unat ((w::size_t) div 1024) = unat w div 1024"
  by (simp add: unat_div)

lemma mod_1024_eq_0_iff: "((w::size_t) mod 1024 = 0) \<longleftrightarrow> unat w mod 1024 = 0"
  by (simp add: unat_eq_0[symmetric] unat_mod_1024 del: unat_eq_0)

lemma mod_1024_less: "(w::size_t) mod 1024 < 1024"
  by (simp add: word_mod_less_divisor)

lemma unat_1024_minus:
  fixes off :: size_t
  assumes "off < 1024"
  shows "unat (1024 - off) = 1024 - unat off"
  using assms by unat_arith

lemma unat_min: "unat (min (a::size_t) b) = min (unat a) (unat b)"
  by (simp add: min_def word_le_nat_alt)

lemma unat_add_small:
  fixes a b :: size_t
  assumes "unat a + unat b < 2 ^ 64"
  shows "unat (a + b) = unat a + unat b"
  using assms by (intro unat_add_lem[THEN iffD1]) simp

lemma unat_sub_le:
  fixes a b :: size_t
  assumes "unat b \<le> unat a"
  shows "unat (a - b) = unat a - unat b"
  using assms by (simp add: unat_sub word_le_nat_alt)

section \<open>Appending to the first file: the direct region\<close>

text \<open>
  After \<open>tfs_init\<close> the root directory holds block 0 and every other block is free. The
  first file then receives the blocks 1, 2, ... in order: \<open>dinv\<close> describes the state
  after \<open>s\<close> bytes of \<open>buf\<close> have been appended in the direct region.
\<close>

definition dinv :: "fs_state \<Rightarrow> nat \<Rightarrow> nat \<Rightarrow> (nat \<Rightarrow> byte) \<Rightarrow> block \<Rightarrow> nat \<Rightarrow> bool" where
  "dinv st ino fh buf d0 s \<longleftrightarrow>
     fs_data st 0 = d0 \<and>
     unat (of_offset (open_file_table st fh)) = s \<and>
     unat (i_size (inode_table st ino)) = s \<and>
     (\<forall>b. free_blocks st b = (if b \<le> (s + 1023) div 1024 then TAKEN else FREE)) \<and>
     (s mod 1024 \<noteq> 0 \<longrightarrow> i_data_block (inode_table st ino) = int (s div 1024 + 1)) \<and>
     i_block (inode_table st ino) 10 = -1 \<and>
     (\<forall>b\<ge>1. is_Bytes (fs_data st b)) \<and>
     (\<forall>j. j < s \<longrightarrow> bytes_of (fs_data st (j div 1024 + 1)) (j mod 1024) = buf j) \<and>
     (\<forall>j. s \<le> j \<and> j < 1024 * ((s + 1023) div 1024)
          \<longrightarrow> bytes_of (fs_data st (j div 1024 + 1)) (j mod 1024) = -1)"

lemma nat_1_int [simp]: "nat (1 + int i) = Suc i"
  by (simp add: Suc_nat_eq_nat_zadd1[symmetric])

lemma alloc_next:
  assumes "\<forall>b. free_blocks st b = (if b \<le> t then TAKEN else FREE)" "t + 1 < 1024"
  shows "data_block_alloc st = (int (t + 1), st\<lparr>free_blocks := (free_blocks st)(t + 1 := TAKEN)\<rparr>)"
proof -
  have "first_free (free_blocks st) 1024 = Some (t + 1)"
    using assms by (intro first_free_least) auto
  then show ?thesis by (simp add: data_block_alloc_def)
qed

lemma direct_insert_next:
  assumes fb: "\<forall>b. free_blocks st b = (if b \<le> i then TAKEN else FREE)"
    and i: "i < 10"
    and isb: "is_Bytes (fs_data st (i + 1))"
  shows "direct_block_insert st ino =
     Some (0, st\<lparr>free_blocks := (free_blocks st)(i + 1 := TAKEN),
                 fs_data := (fs_data st)(i + 1 := Bytes (\<lambda>k. if k < 1024 then -1 else bytes_of (fs_data st (Suc i)) k)),
                 inode_table := (inode_table st)(ino := (inode_table st ino)
                    \<lparr>i_data_block := int (i + 1),
                     i_block := (i_block (inode_table st ino))(i := int (i + 1))\<rparr>)\<rparr>)"
proof -
  have a: "data_block_alloc st = (int (i + 1), st\<lparr>free_blocks := (free_blocks st)(i + 1 := TAKEN)\<rparr>)"
    using fb i by (intro alloc_next) auto
  obtain f where f: "fs_data st (Suc i) = Bytes f" using isb by (cases "fs_data st (Suc i)") auto
  show ?thesis
    using i f
    by (simp add: direct_block_insert_def a Let_def data_block_get_def valid_block_number_def
        memset_block_def store_i_block_def inode_upd_def cong: if_cong)
qed

lemma block_div_mod:
  assumes "1024 * i \<le> j" "j < 1024 * i + 1024"
  shows "j div 1024 = (i::nat)" "j mod 1024 = j - 1024 * i"
proof -
  show d: "j div 1024 = i" using assms by (simp add: div_nat_eqI mult.commute)
  have "j = 1024 * (j div 1024) + j mod 1024" by simp
  then show "j mod 1024 = j - 1024 * i" unfolding d by linarith
qed

lemma below_block_div:
  assumes "j < 1024 * (i::nat)"
  shows "j div 1024 < i"
  using assms by (simp add: less_mult_imp_div_less mult.commute)

text \<open>
  What a write to the file \<open>ino\<close> through the handle \<open>fh\<close> leaves unchanged: the two
  allocation maps of i-nodes and handles, the other i-nodes and the type of this one,
  the other entries of the open file table and the i-number of this one.
\<close>

definition wframe :: "fs_state \<Rightarrow> fs_state \<Rightarrow> nat \<Rightarrow> nat \<Rightarrow> bool" where
  "wframe st st' ino fh \<longleftrightarrow>
     freeinode_ts st' = freeinode_ts st \<and>
     free_open_file_entries st' = free_open_file_entries st \<and>
     (\<forall>j. j \<noteq> ino \<longrightarrow> inode_table st' j = inode_table st j) \<and>
     i_node_type (inode_table st' ino) = i_node_type (inode_table st ino) \<and>
     (\<forall>h. h \<noteq> fh \<longrightarrow> open_file_table st' h = open_file_table st h) \<and>
     of_inumber (open_file_table st' fh) = of_inumber (open_file_table st fh)"

lemma wframe_refl [simp]: "wframe st st ino fh"
  by (simp add: wframe_def)

lemma wframe_trans: "wframe st st1 ino fh \<Longrightarrow> wframe st1 st2 ino fh \<Longrightarrow> wframe st st2 ino fh"
  by (simp add: wframe_def)

lemma direct_step:
  assumes inv: "dinv st ino fh buf d0 (1024 * i)" and i: "i < 10"
    and ws: "0 < unat ws" "unat ws + 1024 * i \<le> 10240"
    and bw: "unat bw = 1024 * i"
  shows "\<exists>st'. write_direct_body st ino fh buf ws bw = Some (Inr (st', ws - min ws 1024, bw + min ws 1024))
           \<and> dinv st' ino fh buf d0 (1024 * i + unat (min ws 1024))
           \<and> wframe st st' ino fh"
proof -
  define c where "c = min ws 1024"
  have uc: "unat c = min (unat ws) 1024" by (simp add: c_def unat_min)
  have c1: "0 < unat c" "unat c \<le> 1024" using ws uc by auto
  have off0: "unat (of_offset (open_file_table st fh)) = 1024 * i"
    and sz0: "unat (i_size (inode_table st ino)) = 1024 * i"
    and fb: "\<forall>b. free_blocks st b = (if b \<le> i then TAKEN else FREE)"
    and ib: "i_block (inode_table st ino) 10 = -1"
    and dir0: "fs_data st 0 = d0"
    and isb: "\<forall>b\<ge>1. is_Bytes (fs_data st b)"
    and d7: "\<forall>j. j < 1024 * i \<longrightarrow> bytes_of (fs_data st (j div 1024 + 1)) (j mod 1024) = buf j"
    using inv by (simp_all add: dinv_def)
  have szmod: "i_size (inode_table st ino) mod 1024 = 0"
    by (simp add: mod_1024_eq_0_iff sz0)
  have offmod: "of_offset (open_file_table st fh) mod 1024 = 0"
    by (simp add: mod_1024_eq_0_iff off0)
  define g where "g = (\<lambda>k. if k < 1024 then (-1::byte) else bytes_of (fs_data st (Suc i)) k)"
  define st1 where "st1 = st\<lparr>free_blocks := (free_blocks st)(i + 1 := TAKEN),
                 fs_data := (fs_data st)(i + 1 := Bytes g),
                 inode_table := (inode_table st)(ino := (inode_table st ino)
                    \<lparr>i_data_block := int (i + 1),
                     i_block := (i_block (inode_table st ino))(i := int (i + 1))\<rparr>)\<rparr>"
  have ins: "direct_block_insert st ino = Some (0, st1)"
    unfolding st1_def g_def using fb i isb by (intro direct_insert_next) auto
  define h where "h = (\<lambda>k. if k < unat c then buf (1024 * i + k) else g k)"
  define st' where "st' = st1\<lparr>fs_data := (fs_data st1)(i + 1 := Bytes h),
       open_file_table := (open_file_table st1)(fh := (open_file_table st1 fh)
          \<lparr>of_offset := of_offset (open_file_table st1 fh) + c\<rparr>),
       inode_table := (inode_table st1)(ino := (inode_table st1 ino)
          \<lparr>i_size := i_size (inode_table st1 ino) + c\<rparr>)\<rparr>"
  have chunk: "(if ws \<ge> 1024 \<or> 1024 - (0::size_t) < ws then 1024 - 0 else ws) = c"
    "(if ws \<ge> 1024 \<or> 1024 - (0::size_t) < ws then ws - (if ws \<ge> 1024 \<or> 1024 - (0::size_t) < ws then 1024 - 0 else ws) else 0) = ws - c"
    using chunk_min[of 0 ws] by (simp_all add: c_def)
  have body: "write_direct_body st ino fh buf ws bw = Some (Inr (st', ws - c, bw + c))"
    using c1 chunk i
    by (simp add: write_direct_body_def szmod ins st1_def data_block_get_def valid_block_number_def
        Let_def offmod memcpy_to_block_def st'_def h_def bw inode_upd_def file_upd_def
        del: diff_zero cong: if_cong)
  have uo: "unat (of_offset (open_file_table st fh) + c) = 1024 * i + unat c"
    using c1 i by (simp add: unat_add_small off0)
  have us: "unat (i_size (inode_table st ino) + c) = 1024 * i + unat c"
    using c1 i by (simp add: unat_add_small sz0)
  have top: "(1024 * i + unat c + 1023) div 1024 = i + 1"
    using c1 by (intro div_nat_eqI) auto
  have wf: "wframe st st' ino fh"
    by (simp add: wframe_def st'_def st1_def)
  have "dinv st' ino fh buf d0 (1024 * i + unat c)"
    unfolding dinv_def
  proof (intro conjI allI impI)
    show "fs_data st' 0 = d0" using dir0 by (simp add: st'_def st1_def)
    show "unat (of_offset (open_file_table st' fh)) = 1024 * i + unat c"
      by (simp add: st'_def st1_def uo)
    show "unat (i_size (inode_table st' ino)) = 1024 * i + unat c"
      by (simp add: st'_def st1_def us)
    show "free_blocks st' b = (if b \<le> (1024 * i + unat c + 1023) div 1024 then TAKEN else FREE)" for b
      unfolding top using fb by (simp add: st'_def st1_def)
    show "i_data_block (inode_table st' ino) = int ((1024 * i + unat c) div 1024 + 1)"
      if "(1024 * i + unat c) mod 1024 \<noteq> 0"
    proof -
      have "unat c < 1024" using that c1 by (cases "unat c = 1024") auto
      then have "(1024 * i + unat c) div 1024 = i" by (intro block_div_mod) auto
      then show ?thesis by (simp add: st'_def st1_def)
    qed
    show "i_block (inode_table st' ino) 10 = - 1"
      using ib i by (simp add: st'_def st1_def)
    show "is_Bytes (fs_data st' b)" if "1 \<le> b" for b
      using isb that by (simp add: st'_def st1_def)
    show "bytes_of (fs_data st' (j div 1024 + 1)) (j mod 1024) = buf j" if j: "j < 1024 * i + unat c" for j
    proof (cases "j < 1024 * i")
      case True
      then have "j div 1024 < i" by (rule below_block_div)
      then show ?thesis using d7 True by (simp add: st'_def st1_def)
    next
      case False
      then have "j div 1024 = i" "j mod 1024 = j - 1024 * i"
        using j c1 by (auto intro!: block_div_mod)
      moreover have "j - 1024 * i < unat c" "1024 * i + (j - 1024 * i) = j" using j False by linarith+
      ultimately show ?thesis by (simp add: st'_def st1_def h_def)
    qed
    show "bytes_of (fs_data st' (j div 1024 + 1)) (j mod 1024) = - 1"
      if j: "1024 * i + unat c \<le> j \<and> j < 1024 * ((1024 * i + unat c + 1023) div 1024)" for j
    proof -
      have jj: "1024 * i + unat c \<le> j" "j < 1024 * i + 1024" using j by (simp_all add: top)
      have "j div 1024 = i" "j mod 1024 = j - 1024 * i"
        using jj c1 by (auto intro!: block_div_mod)
      moreover have "\<not> j - 1024 * i < unat c" "j - 1024 * i < 1024" using jj by linarith+
      ultimately show ?thesis by (simp add: st'_def st1_def h_def g_def)
    qed
  qed
  with body wf show ?thesis unfolding c_def by blast
qed

lemma unat_pos_iff: "0 < unat (w::size_t) \<longleftrightarrow> 0 < w"
  by (simp add: word_greater_zero_iff unat_gt_0)

lemma direct_loop:
  assumes "dinv st ino fh buf d0 (1024 * i)" "unat ws + 1024 * i \<le> 10240" "unat bw = 1024 * i"
  shows "\<exists>st'. write_direct_loop st ino fh buf ws bw i = Some (bw + ws, st')
           \<and> dinv st' ino fh buf d0 (1024 * i + unat ws)
           \<and> wframe st st' ino fh"
  using assms
proof (induction "unat ws" arbitrary: st ws bw i rule: less_induct)
  case less
  show ?case
  proof (cases "ws = 0")
    case True
    then show ?thesis using less.prems(1)
      by (subst write_direct_loop.simps) simp
  next
    case False
    then have pos: "0 < unat ws" by (simp add: unat_gt_0)
    then have wpos: "0 < ws" by (simp add: unat_pos_iff)
    have i: "i < 10" using pos less.prems(2) by linarith
    from direct_step[OF less.prems(1) i pos less.prems(2) less.prems(3)]
    obtain st1 where body: "write_direct_body st ino fh buf ws bw = Some (Inr (st1, ws - min ws 1024, bw + min ws 1024))"
      and inv1: "dinv st1 ino fh buf d0 (1024 * i + unat (min ws 1024))"
      and wf1: "wframe st st1 ino fh" by blast
    have unf: "write_direct_loop st ino fh buf ws bw i =
        write_direct_loop st1 ino fh buf (ws - min ws 1024) (bw + min ws 1024) (i + 1)"
      using wpos i body by (subst write_direct_loop.simps) simp
    show ?thesis
    proof (cases "1024 \<le> unat ws")
      case True
      then have m: "min ws 1024 = 1024" by (simp add: word_unat_eq_iff unat_min)
      have u1: "unat (ws - 1024) = unat ws - 1024" using True by (simp add: unat_sub_le)
      have u2: "unat (bw + 1024) = 1024 * (i + 1)" using less.prems(3) i by (simp add: unat_add_small)
      have e1: "1024 * i + unat (1024::size_t) = 1024 * (i + 1)" by simp
      have inv1': "dinv st1 ino fh buf d0 (1024 * (i + 1))" using inv1 unfolding m e1 .
      have "\<exists>st'. write_direct_loop st1 ino fh buf (ws - 1024) (bw + 1024) (i + 1)
               = Some (bw + 1024 + (ws - 1024), st')
             \<and> dinv st' ino fh buf d0 (1024 * (i + 1) + unat (ws - 1024))
             \<and> wframe st1 st' ino fh"
        using True less.prems(2) by (intro less.hyps inv1' u2) (simp_all add: u1)
      then obtain st' where l: "write_direct_loop st1 ino fh buf (ws - 1024) (bw + 1024) (i + 1)
               = Some (bw + 1024 + (ws - 1024), st')"
        and inv': "dinv st' ino fh buf d0 (1024 * (i + 1) + unat (ws - 1024))"
        and wf': "wframe st1 st' ino fh" by blast
      have e2: "1024 * (i + 1) + unat (ws - 1024) = 1024 * i + unat ws" using True by (simp add: u1)
      have e3: "bw + 1024 + (ws - 1024) = bw + ws" by simp
      have wf: "wframe st st' ino fh" using wf1 wf' by (rule wframe_trans)
      show ?thesis using l inv' wf unfolding unf m e2 e3 by blast
    next
      case False
      then have m: "min ws 1024 = ws" by (simp add: word_unat_eq_iff unat_min)
      have "write_direct_loop st1 ino fh buf 0 (bw + ws) (i + 1) = Some (bw + ws, st1)"
        by (subst write_direct_loop.simps) simp
      then show ?thesis using inv1 wf1 unfolding unf m by simp
    qed
  qed
qed

section \<open>Appending to the first file: the indirect region\<close>

definition blk_of :: "nat \<Rightarrow> nat" where
  "blk_of j = j div 1024 + (if j < 10240 then 1 else 2)"

definition iinv :: "fs_state \<Rightarrow> nat \<Rightarrow> nat \<Rightarrow> (nat \<Rightarrow> byte) \<Rightarrow> block \<Rightarrow> nat \<Rightarrow> bool" where
  "iinv st ino fh buf d0 s \<longleftrightarrow>
     fs_data st 0 = d0 \<and>
     unat (of_offset (open_file_table st fh)) = s \<and>
     unat (i_size (inode_table st ino)) = s \<and>
     (\<forall>b. free_blocks st b = (if b \<le> (s + 1023) div 1024 + 1 then TAKEN else FREE)) \<and>
     (s mod 1024 \<noteq> 0 \<longrightarrow> i_data_block (inode_table st ino) = int (s div 1024 + 2)) \<and>
     i_block (inode_table st ino) 10 = 11 \<and>
     (\<forall>b\<ge>1. is_Bytes (fs_data st b)) \<and>
     (\<forall>j. j < s \<longrightarrow> bytes_of (fs_data st (blk_of j)) (j mod 1024) = buf j)"

lemma store_int_nat:
  assumes "int (block_stride * lb) + 4 * j = int A"
    and "A + 4 \<le> block_stride * 1024"
    and "A mod block_stride + 4 \<le> 1024"
    and "fs_data st (A div block_stride) = Bytes f"
  shows "store_int st lb j v =
     Some (st\<lparr>fs_data := (fs_data st)(A div block_stride :=
        Bytes (\<lambda>k. if A mod block_stride \<le> k \<and> k < A mod block_stride + 4
                   then int_byte v (k - A mod block_stride) else f k))\<rparr>)"
  unfolding store_int_def assms(1)
  using assms(2-4) by (simp add: Let_def)

lemma store_int_index:
  assumes "10 \<le> i" "i < 266" "is_Bytes (fs_data st 11)"
  shows "\<exists>g. store_int st 11 (int (i + 2) - 12) v = Some (st\<lparr>fs_data := (fs_data st)(11 := Bytes g)\<rparr>)"
proof -
  obtain f where f: "fs_data st 11 = Bytes f" using assms(3) by (cases "fs_data st 11") auto
  define A where "A = 45056 + 4 * (i - 10)"
  have a: "int (block_stride * 11) + 4 * (int (i + 2) - 12) = int A"
    using assms by (simp add: block_stride_def A_def)
  have d: "A div block_stride = 11"
    unfolding A_def block_stride_def using assms by (intro div_nat_eqI) auto
  have m: "A mod block_stride = 4 * (i - 10)"
    unfolding A_def block_stride_def using assms by (intro mod_nat_eqI) auto
  have "A + 4 \<le> block_stride * 1024" using assms by (simp add: A_def block_stride_def)
  moreover have "A mod block_stride + 4 \<le> 1024" using assms by (simp add: m)
  moreover have "fs_data st (A div block_stride) = Bytes f" by (simp add: d f)
  ultimately show ?thesis
    using store_int_nat[OF a, of st f v] unfolding d by blast
qed

lemma indirect_insert_next:
  assumes fb: "\<forall>b. free_blocks st b = (if b \<le> i + 1 then TAKEN else FREE)"
    and i: "10 \<le> i" "i < 266"
    and ib: "i_block (inode_table st ino) 10 = 11"
    and isb: "\<forall>b\<ge>1. is_Bytes (fs_data st b)"
  shows "\<exists>g g'. indirect_block_insert st ino =
     Some (0, st\<lparr>free_blocks := (free_blocks st)(i + 2 := TAKEN),
                 fs_data := (fs_data st)(i + 2 := Bytes g, 11 := Bytes g'),
                 inode_table := (inode_table st)(ino := (inode_table st ino)
                    \<lparr>i_data_block := int (i + 2)\<rparr>)\<rparr>)"
proof -
  have a: "data_block_alloc st = (int (i + 1 + 1), st\<lparr>free_blocks := (free_blocks st)(i + 1 + 1 := TAKEN)\<rparr>)"
    using fb i by (intro alloc_next) auto
  have "is_Bytes (fs_data st (Suc (Suc i)))" using isb by simp
  then obtain f where f: "fs_data st (Suc (Suc i)) = Bytes f"
    by (cases "fs_data st (Suc (Suc i))") auto
  define g where "g = (\<lambda>k. if k < 256 then (-1::byte) else f k)"
  define st3 where "st3 = st\<lparr>free_blocks := (free_blocks st)(i + 2 := TAKEN),
                 inode_table := (inode_table st)(ino := (inode_table st ino)
                    \<lparr>i_data_block := int (i + 2)\<rparr>),
                 fs_data := (fs_data st)(i + 2 := Bytes g)\<rparr>"
  have "is_Bytes (fs_data st3 11)" using isb i by (simp add: st3_def)
  from store_int_index[OF i this, of "int (i + 2)"]
  obtain g' where s: "store_int st3 11 (int (i + 2) - 12) (int (i + 2)) = Some (st3\<lparr>fs_data := (fs_data st3)(11 := Bytes g')\<rparr>)"
    by blast
  have "indirect_block_insert st ino = Some (0, st3\<lparr>fs_data := (fs_data st3)(11 := Bytes g')\<rparr>)"
    using i f s
    by (simp add: indirect_block_insert_def a ib Let_def data_block_get_def valid_block_number_def
        memset_block_def inode_upd_def st3_def g_def nat_add_distrib)
  then show ?thesis by (intro exI[of _ g] exI[of _ g']) (simp add: st3_def)
qed

lemma indirect_step:
  assumes inv: "iinv st ino fh buf d0 (1024 * i)" and i: "10 \<le> i" "i < 266"
    and ws: "0 < unat ws" "unat ws + 1024 * i \<le> 272384"
    and bw: "unat bw + 10240 = 1024 * i"
  shows "\<exists>st'. write_indirect_body st ino fh (\<lambda>k. buf (10240 + k)) ws bw
              = Some (Inr (st', ws - min ws 1024, bw + min ws 1024))
           \<and> iinv st' ino fh buf d0 (1024 * i + unat (min ws 1024))"
proof -
  define c where "c = min ws 1024"
  have uc: "unat c = min (unat ws) 1024" by (simp add: c_def unat_min)
  have c1: "0 < unat c" "unat c \<le> 1024" using ws uc by auto
  have off0: "unat (of_offset (open_file_table st fh)) = 1024 * i"
    and sz0: "unat (i_size (inode_table st ino)) = 1024 * i"
    and fb: "\<forall>b. free_blocks st b = (if b \<le> i + 1 then TAKEN else FREE)"
    and ib: "i_block (inode_table st ino) 10 = 11"
    and dir0: "fs_data st 0 = d0"
    and isb: "\<forall>b\<ge>1. is_Bytes (fs_data st b)"
    and d7: "\<forall>j. j < 1024 * i \<longrightarrow> bytes_of (fs_data st (blk_of j)) (j mod 1024) = buf j"
    using inv by (simp_all add: iinv_def)
  have szmod: "i_size (inode_table st ino) mod 1024 = 0"
    by (simp add: mod_1024_eq_0_iff sz0)
  have offmod: "of_offset (open_file_table st fh) mod 1024 = 0"
    by (simp add: mod_1024_eq_0_iff off0)
  have "unat (i_size (inode_table st ino) + ws) = 1024 * i + unat ws"
    using ws i by (simp add: unat_add_small sz0)
  then have "\<not> i_size (inode_table st ino) + ws > 272384"
    using ws by (simp add: word_less_nat_alt)
  then have clamp: "clamp_write_size st ino ws = ws" by (simp add: clamp_write_size_def)
  from indirect_insert_next[OF fb i ib isb]
  obtain g g' where ins: "indirect_block_insert st ino =
     Some (0, st\<lparr>free_blocks := (free_blocks st)(i + 2 := TAKEN),
                 fs_data := (fs_data st)(i + 2 := Bytes g, 11 := Bytes g'),
                 inode_table := (inode_table st)(ino := (inode_table st ino)
                    \<lparr>i_data_block := int (i + 2)\<rparr>)\<rparr>)" by blast
  define st1 where "st1 = st\<lparr>free_blocks := (free_blocks st)(i + 2 := TAKEN),
                 fs_data := (fs_data st)(i + 2 := Bytes g, 11 := Bytes g'),
                 inode_table := (inode_table st)(ino := (inode_table st ino)
                    \<lparr>i_data_block := int (i + 2)\<rparr>)\<rparr>"
  define h where "h = (\<lambda>k. if k < unat c then buf (1024 * i + k) else g k)"
  define st' where "st' = st1\<lparr>fs_data := (fs_data st1)(i + 2 := Bytes h),
       open_file_table := (open_file_table st1)(fh := (open_file_table st1 fh)
          \<lparr>of_offset := of_offset (open_file_table st1 fh) + c\<rparr>),
       inode_table := (inode_table st1)(ino := (inode_table st1 ino)
          \<lparr>i_size := i_size (inode_table st1 ino) + c\<rparr>)\<rparr>"
  have chunk: "(if ws \<ge> 1024 \<or> 1024 - (0::size_t) < ws then 1024 - 0 else ws) = c"
    "(if ws \<ge> 1024 \<or> 1024 - (0::size_t) < ws then ws - (if ws \<ge> 1024 \<or> 1024 - (0::size_t) < ws then 1024 - 0 else ws) else 0) = ws - c"
    using chunk_min[of 0 ws] by (simp_all add: c_def)
  have src: "10240 + (unat bw + k) = 1024 * i + k" for k using bw by simp
  have i2: "Suc (Suc i) \<noteq> 11" using i by simp
  have body: "write_indirect_body st ino fh (\<lambda>k. buf (10240 + k)) ws bw = Some (Inr (st', ws - c, bw + c))"
    using c1 chunk i i2
    by (simp add: write_indirect_body_def clamp szmod ins st1_def data_block_get_def
        valid_block_number_def Let_def offmod memcpy_to_block_def st'_def h_def src
        inode_upd_def file_upd_def nat_add_distrib del: diff_zero cong: if_cong)
  have uo: "unat (of_offset (open_file_table st fh) + c) = 1024 * i + unat c"
    using c1 i by (simp add: unat_add_small off0)
  have us: "unat (i_size (inode_table st ino) + c) = 1024 * i + unat c"
    using c1 i by (simp add: unat_add_small sz0)
  have top: "(1024 * i + unat c + 1023) div 1024 = i + 1"
    using c1 by (intro div_nat_eqI) auto
  have "iinv st' ino fh buf d0 (1024 * i + unat c)"
    unfolding iinv_def
  proof (intro conjI allI impI)
    show "fs_data st' 0 = d0" using dir0 by (simp add: st'_def st1_def)
    show "unat (of_offset (open_file_table st' fh)) = 1024 * i + unat c"
      by (simp add: st'_def st1_def uo)
    show "unat (i_size (inode_table st' ino)) = 1024 * i + unat c"
      by (simp add: st'_def st1_def us)
    show "free_blocks st' b = (if b \<le> (1024 * i + unat c + 1023) div 1024 + 1 then TAKEN else FREE)" for b
      unfolding top using fb by (simp add: st'_def st1_def)
    show "i_data_block (inode_table st' ino) = int ((1024 * i + unat c) div 1024 + 2)"
      if "(1024 * i + unat c) mod 1024 \<noteq> 0"
    proof -
      have "unat c < 1024" using that c1 by (cases "unat c = 1024") auto
      then have "(1024 * i + unat c) div 1024 = i" by (intro block_div_mod) auto
      then show ?thesis by (simp add: st'_def st1_def)
    qed
    show "i_block (inode_table st' ino) 10 = 11"
      using ib by (simp add: st'_def st1_def)
    show "is_Bytes (fs_data st' b)" if "1 \<le> b" for b
      using isb that by (simp add: st'_def st1_def)
    show "bytes_of (fs_data st' (blk_of j)) (j mod 1024) = buf j" if j: "j < 1024 * i + unat c" for j
    proof (cases "j < 1024 * i")
      case True
      then have "j div 1024 < i" by (rule below_block_div)
      then have "blk_of j \<noteq> i + 2" "blk_of j \<noteq> 11"
        using i by (auto simp: blk_of_def split: if_splits)
      then show ?thesis using d7 True by (simp add: st'_def st1_def)
    next
      case False
      then have "j div 1024 = i" "j mod 1024 = j - 1024 * i"
        using j c1 by (auto intro!: block_div_mod)
      moreover have "j - 1024 * i < unat c" "1024 * i + (j - 1024 * i) = j" using j False by linarith+
      moreover have "\<not> j < 10240" using False i by linarith
      ultimately show ?thesis by (simp add: st'_def st1_def h_def blk_of_def)
    qed
  qed
  with body show ?thesis unfolding c_def by blast
qed

lemma indirect_loop:
  assumes "iinv st ino fh buf d0 (1024 * i)" "10 \<le> i" "unat ws + 1024 * i \<le> 272384"
    "unat bw + 10240 = 1024 * i"
  shows "\<exists>st'. write_indirect_loop st ino fh (\<lambda>k. buf (10240 + k)) ws bw = Some (bw + ws, st')
           \<and> iinv st' ino fh buf d0 (1024 * i + unat ws)"
  using assms
proof (induction "unat ws" arbitrary: st ws bw i rule: less_induct)
  case less
  show ?case
  proof (cases "ws = 0")
    case True
    then show ?thesis using less.prems(1)
      by (subst write_indirect_loop.simps) simp
  next
    case False
    then have pos: "0 < unat ws" by (simp add: unat_gt_0)
    then have wpos: "0 < ws" by (simp add: unat_pos_iff)
    have i: "i < 266" using pos less.prems(3) by linarith
    from indirect_step[OF less.prems(1) less.prems(2) i pos less.prems(3) less.prems(4)]
    obtain st1 where body: "write_indirect_body st ino fh (\<lambda>k. buf (10240 + k)) ws bw
          = Some (Inr (st1, ws - min ws 1024, bw + min ws 1024))"
      and inv1: "iinv st1 ino fh buf d0 (1024 * i + unat (min ws 1024))" by blast
    have unf: "write_indirect_loop st ino fh (\<lambda>k. buf (10240 + k)) ws bw =
        write_indirect_loop st1 ino fh (\<lambda>k. buf (10240 + k)) (ws - min ws 1024) (bw + min ws 1024)"
      using wpos body by (subst write_indirect_loop.simps) simp
    show ?thesis
    proof (cases "1024 \<le> unat ws")
      case True
      then have m: "min ws 1024 = 1024" by (simp add: word_unat_eq_iff unat_min)
      have u1: "unat (ws - 1024) = unat ws - 1024" using True by (simp add: unat_sub_le)
      have "unat bw < 272384" using less.prems(4) i by linarith
      then have u2: "unat (bw + 1024) + 10240 = 1024 * (i + 1)"
        using less.prems(4) by (simp add: unat_add_small)
      have e1: "1024 * i + unat (1024::size_t) = 1024 * (i + 1)" by simp
      have inv1': "iinv st1 ino fh buf d0 (1024 * (i + 1))" using inv1 unfolding m e1 .
      have "\<exists>st'. write_indirect_loop st1 ino fh (\<lambda>k. buf (10240 + k)) (ws - 1024) (bw + 1024)
               = Some (bw + 1024 + (ws - 1024), st')
             \<and> iinv st' ino fh buf d0 (1024 * (i + 1) + unat (ws - 1024))"
        using True less.prems(2,3) by (intro less.hyps inv1' u2) (simp_all add: u1)
      then obtain st' where l: "write_indirect_loop st1 ino fh (\<lambda>k. buf (10240 + k)) (ws - 1024) (bw + 1024)
               = Some (bw + 1024 + (ws - 1024), st')"
        and inv': "iinv st' ino fh buf d0 (1024 * (i + 1) + unat (ws - 1024))" by blast
      have e2: "1024 * (i + 1) + unat (ws - 1024) = 1024 * i + unat ws" using True by (simp add: u1)
      have e3: "bw + 1024 + (ws - 1024) = bw + ws" by simp
      show ?thesis using l inv' unfolding unf m e2 e3 by blast
    next
      case False
      then have m: "min ws 1024 = ws" by (simp add: word_unat_eq_iff unat_min)
      have "write_indirect_loop st1 ino fh (\<lambda>k. buf (10240 + k)) 0 (bw + ws) = Some (bw + ws, st1)"
        by (subst write_indirect_loop.simps) simp
      then show ?thesis using inv1 unfolding unf m by simp
    qed
  qed
qed

section \<open>What a write leaves unchanged\<close>

lemma indirect_block_insert_wframe:
  "indirect_block_insert st ino = Some (r, st') \<Longrightarrow> wframe st st' ino fh"
  by (auto simp: indirect_block_insert_def wframe_def Let_def memset_block_frame store_int_frame
      data_block_alloc_frame split: prod.splits option.splits if_splits)

lemma tfs_handle_indirect_block_wframe:
  "tfs_handle_indirect_block st ino = Some (r, st') \<Longrightarrow> wframe st st' ino fh"
  by (auto simp: tfs_handle_indirect_block_def wframe_def Let_def memset_block_frame
      data_block_alloc_frame split: prod.splits option.splits if_splits)

lemma write_indirect_body_wframe:
  assumes "write_indirect_body st ino fh buffer ws bw = Some x"
  shows "case x of Inl st' \<Rightarrow> wframe st st' ino fh | Inr (st', ws', bw') \<Rightarrow> wframe st st' ino fh"
proof -
  obtain r st1 where ins: "(if i_size (inode_table st ino) mod BLOCK_SIZE = 0
            then indirect_block_insert st ino else Some (0, st)) = Some (r, st1)"
    using assms by (auto simp: write_indirect_body_def Let_def split: option.splits)
  have f1: "wframe st st1 ino fh"
    using ins by (auto split: if_splits dest: indirect_block_insert_wframe)
  show ?thesis
    using assms f1 unfolding write_indirect_body_def ins
    by (auto simp: Let_def wframe_def memcpy_to_block_frame split: option.splits if_splits)
qed

lemma write_indirect_loop_wframe:
  "write_indirect_loop st ino fh buffer ws bw = Some (r, st') \<Longrightarrow> wframe st st' ino fh"
proof (induction st ino fh buffer ws bw rule: write_indirect_loop.induct)
  case (1 st ino fh buffer write_size bytes_written)
  show ?case
  proof (cases "write_size > 0")
    case False
    then show ?thesis using "1.prems" by (subst (asm) write_indirect_loop.simps) auto
  next
    case True
    from "1.prems" True obtain x where b: "write_indirect_body st ino fh buffer write_size bytes_written = Some x"
      by (subst (asm) write_indirect_loop.simps) (auto split: option.splits)
    show ?thesis
    proof (cases x)
      case (Inl s1)
      then show ?thesis using "1.prems" True b write_indirect_body_wframe[OF b]
        by (subst (asm) write_indirect_loop.simps) auto
    next
      case (Inr y)
      obtain s1 ws' bw' where y: "y = (s1, ws', bw')" by (cases y) auto
      have l: "write_indirect_loop s1 ino fh buffer ws' bw' = Some (r, st')"
        using "1.prems" True b Inr y by (subst (asm) write_indirect_loop.simps) auto
      have "wframe st s1 ino fh" using write_indirect_body_wframe[OF b] Inr y by simp
      moreover have "wframe s1 st' ino fh"
        using "1.IH"[OF True b Inr y[symmetric] refl l] .
      ultimately show ?thesis by (rule wframe_trans)
    qed
  qed
qed

lemma handle_indirect_next:
  assumes inv: "dinv st ino fh buf d0 10240"
  shows "\<exists>st'. alloc_indirect_if_unset st ino = Some st' \<and> iinv st' ino fh buf d0 10240"
proof -
  have off0: "unat (of_offset (open_file_table st fh)) = 10240"
    and sz0: "unat (i_size (inode_table st ino)) = 10240"
    and fb: "\<forall>b. free_blocks st b = (if b \<le> 10 then TAKEN else FREE)"
    and ib: "i_block (inode_table st ino) 10 = -1"
    and dir0: "fs_data st 0 = d0"
    and isb: "\<forall>b\<ge>1. is_Bytes (fs_data st b)"
    and d7: "\<forall>j. j < 10240 \<longrightarrow> bytes_of (fs_data st (j div 1024 + 1)) (j mod 1024) = buf j"
    using inv by (simp_all add: dinv_def)
  have a: "data_block_alloc st = (int (10 + 1), st\<lparr>free_blocks := (free_blocks st)(10 + 1 := TAKEN)\<rparr>)"
    using fb by (intro alloc_next) auto
  have "is_Bytes (fs_data st 11)" using isb by simp
  then obtain f where f: "fs_data st 11 = Bytes f" by (cases "fs_data st 11") auto
  define st' where "st' = st\<lparr>free_blocks := (free_blocks st)(11 := TAKEN),
      fs_data := (fs_data st)(11 := Bytes (\<lambda>k. if k < 8 then -1 else f k)),
      inode_table := (inode_table st)(ino := (inode_table st ino)
         \<lparr>i_block := (i_block (inode_table st ino))(10 := 11), i_data_block := 11\<rparr>)\<rparr>"
  have h: "alloc_indirect_if_unset st ino = Some st'"
    using a f
    by (simp add: alloc_indirect_if_unset_def ib tfs_handle_indirect_block_def Let_def
        data_block_get_def valid_block_number_def memset_block_def inode_upd_def st'_def)
  have "iinv st' ino fh buf d0 10240"
    unfolding iinv_def
  proof (intro conjI allI impI)
    show "fs_data st' 0 = d0" using dir0 by (simp add: st'_def)
    show "unat (of_offset (open_file_table st' fh)) = 10240" using off0 by (simp add: st'_def)
    show "unat (i_size (inode_table st' ino)) = 10240" using sz0 by (simp add: st'_def)
    show "free_blocks st' b = (if b \<le> (10240 + 1023) div 1024 + 1 then TAKEN else FREE)" for b
      using fb by (simp add: st'_def)
    show "i_data_block (inode_table st' ino) = int (10240 div 1024 + 2)" if "(10240::nat) mod 1024 \<noteq> 0"
      using that by simp
    show "i_block (inode_table st' ino) 10 = 11" by (simp add: st'_def)
    show "is_Bytes (fs_data st' b)" if "1 \<le> b" for b using isb that by (simp add: st'_def)
    show "bytes_of (fs_data st' (blk_of j)) (j mod 1024) = buf j" if "j < 10240" for j
    proof -
      have "j div 1024 < 10" using that by simp
      then show ?thesis using d7 that by (simp add: st'_def blk_of_def)
    qed
  qed
  with h show ?thesis by blast
qed

definition written :: "fs_state \<Rightarrow> nat \<Rightarrow> nat \<Rightarrow> (nat \<Rightarrow> byte) \<Rightarrow> block \<Rightarrow> nat \<Rightarrow> bool" where
  "written st ino fh buf d0 s \<longleftrightarrow>
     fs_data st 0 = d0 \<and>
     unat (of_offset (open_file_table st fh)) = s \<and>
     unat (i_size (inode_table st ino)) = s \<and>
     (\<forall>b\<ge>1. is_Bytes (fs_data st b)) \<and>
     (\<forall>j. j < s \<longrightarrow> bytes_of (fs_data st (blk_of j)) (j mod 1024) = buf j)"

lemma dinv_written: "dinv st ino fh buf d0 s \<Longrightarrow> s \<le> 10240 \<Longrightarrow> written st ino fh buf d0 s"
  by (auto simp: dinv_def written_def blk_of_def)

lemma iinv_written: "iinv st ino fh buf d0 s \<Longrightarrow> written st ino fh buf d0 s"
  by (auto simp: iinv_def written_def)

lemma sint_small:
  assumes "unat (w::size_t) \<le> 272384"
  shows "sint w = int (unat w)"
proof -
  have "w \<le> 272384" using assms by (simp add: word_le_nat_alt)
  then have "uint w \<le> uint (272384::size_t)" by (simp add: word_le_def)
  then have "uint w \<le> 272384" by simp
  then have "uint w < 9223372036854775808" by simp
  then have "uint w < 2 ^ 63" by simp
  moreover have "- (2 ^ 63) \<le> uint w" by (rule order_trans[of _ 0]) simp_all
  ultimately have "signed_take_bit 63 (uint w) = uint w"
    by (rule signed_take_bit_int_eq_self[rotated])
  then show ?thesis by (simp add: sint_uint)
qed
lemma small_ne_m1:
  assumes "unat (n::size_t) \<le> 272384"
  shows "n \<noteq> -1"
proof
  assume "n = -1"
  then have "sint n = -1" by simp
  moreover have "sint n = int (unat n)" using assms by (rule sint_small)
  ultimately show False by linarith
qed

lemma tfs_write_fresh:
  assumes inv: "dinv st ino fh buf d0 0"
    and fh: "get_open_file_entry fhandle = Some fh"
    and ino: "inode_get (of_inumber (open_file_table st fh)) = Some ino"
    and n: "0 < unat n" "unat n \<le> 272384"
  shows "\<exists>st'. tfs_write st fhandle buf n = Some (int (unat n), st')
            \<and> wframe st st' ino fh \<and> written st' ino fh buf d0 (unat n)"
proof -
  have sz0: "i_size (inode_table st ino) = 0"
    using inv by (simp add: dinv_def unat_eq_0)
  have n0: "n \<noteq> 0" using n by (auto simp: unat_eq_0)
  have inv0: "dinv st ino fh buf d0 (1024 * 0)" using inv by simp
  show ?thesis
  proof (cases "unat n \<le> 10240")
    case True
    then have le: "n \<le> 10240" by (simp add: word_le_nat_alt)
    from direct_loop[OF inv0, of n 0] True
    obtain st' where l: "write_direct_loop st ino fh buf n 0 0 = Some (n, st')"
      and inv': "dinv st' ino fh buf d0 (unat n)"
      and wf': "wframe st st' ino fh" by auto
    have ne: "n \<noteq> -1" using n(2) by (rule small_ne_m1)
    have "tfs_write st fhandle buf n = Some (sint n, st')"
      by (simp add: tfs_write_def n0 fh ino sz0 le tfs_write_direct_region_def l ne)
    moreover note wf'
    moreover have "written st' ino fh buf d0 (unat n)" using inv' True by (rule dinv_written)
    ultimately show ?thesis using n by (auto simp: sint_small)
  next
    case False
    then have nle: "\<not> n \<le> 10240" by (simp add: word_le_nat_alt)
    have un: "unat (n - 10240) = unat n - 10240" using False by (simp add: unat_sub_le)
    from direct_loop[OF inv0, of 10240 0]
    obtain st1 where l1: "write_direct_loop st ino fh buf 10240 0 0 = Some (10240, st1)"
      and inv1: "dinv st1 ino fh buf d0 10240"
      and wf1: "wframe st st1 ino fh" by auto
    from handle_indirect_next[OF inv1]
    obtain st2 where h: "alloc_indirect_if_unset st1 ino = Some st2"
      and inv2: "iinv st2 ino fh buf d0 (1024 * 10)" by auto
    from indirect_loop[OF inv2, of "n - 10240" 0] n False
    obtain st3 where l3: "write_indirect_loop st2 ino fh (\<lambda>k. buf (10240 + k)) (n - 10240) 0
           = Some (n - 10240, st3)"
      and inv3: "iinv st3 ino fh buf d0 (unat n)" by (auto simp: un)
    have ne: "n - 10240 \<noteq> -1" using n un by (intro small_ne_m1) simp
    have "tfs_write st fhandle buf n = Some (sint n, st3)"
      by (simp add: tfs_write_def n0 fh ino sz0 nle tfs_write_direct_region_def l1 h
          tfs_write_indirect_region_def l3 ne Let_def)
    moreover have "wframe st st3 ino fh"
    proof -
      note wf1
      moreover have "wframe st1 st2 ino fh"
        using h by (auto simp: alloc_indirect_if_unset_def split: if_splits
            dest: tfs_handle_indirect_block_wframe)
      moreover have "wframe st2 st3 ino fh" using l3 by (rule write_indirect_loop_wframe)
      ultimately show ?thesis by (blast intro: wframe_trans)
    qed
    moreover have "written st3 ino fh buf d0 (unat n)" using inv3 by (rule iinv_written)
    ultimately show ?thesis using n by (auto simp: sint_small)
  qed
qed

section \<open>The read loops\<close>

lemma int_of_size_t_small:
  assumes "unat w \<le> 2000"
  shows "int_of_size_t w = int (unat w)"
proof -
  have "w \<le> 2000" using assms by (simp add: word_le_nat_alt)
  then have "uint w \<le> uint (2000::size_t)" by (simp add: word_le_def)
  then have u: "uint w \<le> 2000" by simp
  have "uint (ucast w :: 32 word) = take_bit 32 (uint w)"
    by (simp add: unsigned_ucast_eq)
  also have "\<dots> = uint w"
    using u by (intro take_bit_int_eq_self) simp_all
  finally have e: "uint (ucast w :: 32 word) = uint w" .
  have "sint (ucast w :: 32 word) = signed_take_bit 31 (uint w)"
    by (simp add: sint_uint e)
  also have "\<dots> = uint w"
  proof (rule signed_take_bit_int_eq_self)
    have "(0::int) \<le> uint w" by simp
    then show "- (2 ^ 31) \<le> uint w" by (rule order_trans[rotated]) simp
    show "uint w < 2 ^ 31" using u by simp
  qed
  finally show ?thesis by (simp add: int_of_size_t_def)
qed

lemma read_chunk_min:
  fixes t bo :: size_t
  assumes "bo < 1024" "unat t \<le> 272384"
  shows "(if t + bo > 1024 then 1024 - bo else t) = min t (1024 - bo)"
    and "(if t + bo > 1024 then t - (if t + bo > 1024 then 1024 - bo else t) else 0) = t - min t (1024 - bo)"
proof -
  have ub: "unat bo < 1024" using assms(1) by (simp add: word_less_nat_alt)
  have u: "unat (t + bo) = unat t + unat bo"
    using assms ub by (intro unat_add_lem[THEN iffD1]) simp
  have u2: "unat (1024 - bo) = 1024 - unat bo"
    using ub by (simp add: unat_sub word_le_nat_alt)
  show "(if t + bo > 1024 then 1024 - bo else t) = min t (1024 - bo)"
    using ub by (auto simp: min_def word_less_nat_alt word_le_nat_alt u u2 word_unat_eq_iff)
  then show "(if t + bo > 1024 then t - (if t + bo > 1024 then 1024 - bo else t) else 0) = t - min t (1024 - bo)"
    using ub by (auto simp: min_def word_less_nat_alt word_le_nat_alt u u2 word_unat_eq_iff)
qed


lemma file_upd_offset_add:
  "file_upd (file_upd st fh (\<lambda>f. f\<lparr>of_offset := of_offset f + a\<rparr>)) fh
       (\<lambda>f. f\<lparr>of_offset := of_offset f + b\<rparr>)
   = file_upd st fh (\<lambda>f. f\<lparr>of_offset := of_offset f + (a + b)\<rparr>)"
  by (simp add: file_upd_def add.assoc)

lemma file_upd_offset_zero:
  "file_upd st fh (\<lambda>f. f\<lparr>of_offset := of_offset f + 0\<rparr>) = st"
  by (simp add: file_upd_def)

lemma same_block:
  assumes "d < 1024 - p mod 1024"
  shows "(p + d) div 1024 = p div (1024::nat)" "(p + d) mod 1024 = p mod 1024 + d"
proof -
  have "p + d = 1024 * (p div 1024) + (p mod 1024 + d)" by simp
  moreover have "p mod 1024 + d < 1024" using assms by linarith
  ultimately show "(p + d) div 1024 = p div 1024" "(p + d) mod 1024 = p mod 1024 + d"
    by (metis div_mult_self2 div_less add.commute add_0 zero_neq_numeral mult.commute
        mod_mult_self2 mod_less)+
qed

definition read_result ::
  "fs_state \<Rightarrow> nat \<Rightarrow> (nat \<Rightarrow> byte) \<Rightarrow> nat \<Rightarrow> nat \<Rightarrow> nat \<Rightarrow> nat \<Rightarrow> byte" where
  "read_result st shift buf at p n k =
     (if at \<le> k \<and> k < at + n
      then bytes_of (fs_data st ((p + (k - at)) div 1024 + shift)) ((p + (k - at)) mod 1024)
      else buf k)"

lemma read_direct_loop_spec:
  assumes "unat (of_offset (open_file_table st fh)) = p"
    and "p + unat t \<le> 10240"
    and "\<forall>b\<ge>1. is_Bytes (fs_data st b)"
    and "unat tot + unat t \<le> 272384"
  shows "\<exists>buf'. read_direct_loop st fh t buf base tot
            = Some (tot + t, file_upd st fh (\<lambda>f. f\<lparr>of_offset := of_offset f + t\<rparr>), buf')
          \<and> (\<forall>k. buf' k = read_result st 1 buf (base + unat tot) p (unat t) k)"
  using assms
proof (induction "unat t" arbitrary: st t buf tot p rule: less_induct)
  case less
  show ?case
  proof (cases "t = 0")
    case True
    then show ?thesis
      by (subst read_direct_loop.simps) (auto simp: file_upd_offset_zero read_result_def)
  next
    case False
    then have pos: "0 < unat t" by (simp add: unat_gt_0)
    then have tpos: "0 < t" by (simp add: unat_pos_iff)
    define off where "off = of_offset (open_file_table st fh)"
    have uoff: "unat off = p" using less.prems(1) by (simp add: off_def)
    have p: "p < 10240" using pos less.prems(2) by linarith
    have pdiv: "p div 1024 < 10" using p by simp
    define bo where "bo = off mod 1024"
    have bo: "bo < 1024" by (simp add: bo_def mod_1024_less)
    have ubo: "unat bo = p mod 1024" by (simp add: bo_def unat_mod_1024 uoff)
    have ucb: "unat (off div 1024 + 1) = p div 1024 + 1"
      using p by (simp add: unat_add_small unat_div_1024 uoff)
    have cble: "off div 1024 + 1 \<le> 10"
      using p by (simp add: word_le_nat_alt ucb)
    have cbint: "int_of_size_t (off div 1024 + 1) = int (p div 1024 + 1)"
      using p by (subst int_of_size_t_small) (simp_all add: ucb)
    have tle: "unat t \<le> 272384" using less.prems(4) by linarith
    define c where "c = min t (1024 - bo)"
    have chunk: "(if t + bo > 1024 then 1024 - bo else t) = c"
      "(if t + bo > 1024 then t - c else 0) = t - c"
      using read_chunk_min[OF bo tle] by (auto simp: c_def split: if_splits)
    have uc: "unat c = min (unat t) (1024 - p mod 1024)"
      using bo by (simp add: c_def unat_min unat_1024_minus ubo)
    have c1: "0 < unat c" "unat c \<le> unat t" "unat c \<le> 1024 - p mod 1024"
      using pos uc by auto
    have pm: "p mod 1024 < 1024" by simp
    have c2: "p mod 1024 + unat c \<le> 1024" using c1(3) pm by linarith
    have "is_Bytes (fs_data st (p div 1024 + 1))" using less.prems(3) by simp
    then obtain f where f: "fs_data st (p div 1024 + 1) = Bytes f"
      by (cases "fs_data st (p div 1024 + 1)") auto
    define buf1 where "buf1 = (\<lambda>k. if base + unat tot \<le> k \<and> k < base + unat tot + unat c
        then f (p mod 1024 + (k - (base + unat tot))) else buf k)"
    define st1 where "st1 = file_upd st fh (\<lambda>f. f\<lparr>of_offset := of_offset f + c\<rparr>)"
    have unf: "read_direct_loop st fh t buf base tot
        = read_direct_loop st1 fh (t - c) buf1 base (tot + c)"
      apply (subst read_direct_loop.simps)
      apply (simp only: Let_def off_def[symmetric] bo_def[symmetric] chunk)
      using tpos cble c1 f pdiv c2
      apply (simp add: cbint data_block_get_def valid_block_number_def memcpy_from_block_def
          ubo buf1_def st1_def nat_add_distrib)
      done
    have u1: "unat (t - c) = unat t - unat c" using c1 by (simp add: unat_sub_le)
    have u2: "unat (tot + c) = unat tot + unat c"
      using c1 less.prems(4) by (intro unat_add_small) simp
    have o1: "unat (of_offset (open_file_table st1 fh)) = p + unat c"
      using c1 p by (simp add: st1_def off_def[symmetric] unat_add_small uoff)
    have "\<exists>buf'. read_direct_loop st1 fh (t - c) buf1 base (tot + c)
            = Some (tot + c + (t - c), file_upd st1 fh (\<lambda>f. f\<lparr>of_offset := of_offset f + (t - c)\<rparr>), buf')
          \<and> (\<forall>k. buf' k = read_result st1 1 buf1 (base + unat (tot + c)) (p + unat c) (unat (t - c)) k)"
      using c1 less.prems(2,3,4)
      by (intro less.hyps o1) (simp_all add: u1 u2 st1_def)
    then obtain buf' where l: "read_direct_loop st1 fh (t - c) buf1 base (tot + c)
            = Some (tot + c + (t - c), file_upd st1 fh (\<lambda>f. f\<lparr>of_offset := of_offset f + (t - c)\<rparr>), buf')"
      and b': "\<And>k. buf' k = read_result st1 1 buf1 (base + unat (tot + c)) (p + unat c) (unat (t - c)) k"
      by blast
    have e1: "tot + c + (t - c) = tot + t" by simp
    have e2: "file_upd st1 fh (\<lambda>f. f\<lparr>of_offset := of_offset f + (t - c)\<rparr>)
        = file_upd st fh (\<lambda>f. f\<lparr>of_offset := of_offset f + t\<rparr>)"
      by (simp add: st1_def file_upd_offset_add)
    have "buf' k = read_result st 1 buf (base + unat tot) p (unat t) k" for k
    proof (cases "base + unat tot \<le> k \<and> k < base + unat tot + unat c")
      case True
      define d where "d = k - (base + unat tot)"
      have d: "d < 1024 - p mod 1024" using True c1 unfolding d_def by linarith
      have "buf' k = buf1 k" using True by (simp add: b' read_result_def u2)
      also have "\<dots> = f (p mod 1024 + d)" using True by (simp add: buf1_def d_def)
      also have "\<dots> = read_result st 1 buf (base + unat tot) p (unat t) k"
        using True c1 same_block[OF d] f by (simp add: read_result_def d_def[symmetric])
      finally show ?thesis .
    next
      case False
      show ?thesis
      proof (cases "base + unat tot + unat c \<le> k \<and> k < base + unat tot + unat t")
        case True
        have "p + unat c + (k - (base + unat tot + unat c)) = p + (k - (base + unat tot))"
          using True by linarith
        then show ?thesis using True c1
          by (simp add: b' read_result_def u1 u2 st1_def add.assoc)
      next
        case F2: False
        then show ?thesis using False c1
          by (auto simp: b' read_result_def u1 u2 buf1_def)
      qed
    qed
    then show ?thesis using l unfolding unf e1 e2 by blast
  qed
qed

lemma read_indirect_loop_spec:
  assumes "unat (of_offset (open_file_table st fh)) = p"
    and "p + unat t \<le> 272384"
    and "\<forall>b\<ge>1. is_Bytes (fs_data st b)"
    and "unat tot + unat t \<le> 272384"
  shows "\<exists>buf'. read_indirect_loop st fh t buf base tot
            = Some (tot + t, file_upd st fh (\<lambda>f. f\<lparr>of_offset := of_offset f + t\<rparr>), buf')
          \<and> (\<forall>k. buf' k = read_result st 2 buf (base + unat tot) p (unat t) k)"
  using assms
proof (induction "unat t" arbitrary: st t buf tot p rule: less_induct)
  case less
  show ?case
  proof (cases "t = 0")
    case True
    then show ?thesis
      by (subst read_indirect_loop.simps) (auto simp: file_upd_offset_zero read_result_def)
  next
    case False
    then have pos: "0 < unat t" by (simp add: unat_gt_0)
    then have tpos: "0 < t" by (simp add: unat_pos_iff)
    define off where "off = of_offset (open_file_table st fh)"
    have uoff: "unat off = p" using less.prems(1) by (simp add: off_def)
    have p: "p < 272384" using pos less.prems(2) by linarith
    have pdiv: "p div 1024 < 266" using p by simp
    define bo where "bo = off mod 1024"
    have bo: "bo < 1024" by (simp add: bo_def mod_1024_less)
    have ubo: "unat bo = p mod 1024" by (simp add: bo_def unat_mod_1024 uoff)
    have ucb: "unat (off div 1024 + 2) = p div 1024 + 2"
      using p by (simp add: unat_add_small unat_div_1024 uoff)
    have cble: "p div 1024 + 2 < 1024" using pdiv by simp
    have cbint: "int_of_size_t (off div 1024 + 2) = int (p div 1024 + 2)"
      using p by (subst int_of_size_t_small) (simp_all add: ucb)
    have tle: "unat t \<le> 272384" using less.prems(4) by linarith
    define c where "c = min t (1024 - bo)"
    have chunk: "(if t + bo > 1024 then 1024 - bo else t) = c"
      "(if t + bo > 1024 then t - c else 0) = t - c"
      using read_chunk_min[OF bo tle] by (auto simp: c_def split: if_splits)
    have uc: "unat c = min (unat t) (1024 - p mod 1024)"
      using bo by (simp add: c_def unat_min unat_1024_minus ubo)
    have c1: "0 < unat c" "unat c \<le> unat t" "unat c \<le> 1024 - p mod 1024"
      using pos uc by auto
    have pm: "p mod 1024 < 1024" by simp
    have c2: "p mod 1024 + unat c \<le> 1024" using c1(3) pm by linarith
    have "is_Bytes (fs_data st (p div 1024 + 2))" using less.prems(3) by simp
    then obtain f where f: "fs_data st (p div 1024 + 2) = Bytes f"
      by (cases "fs_data st (p div 1024 + 2)") auto
    define buf1 where "buf1 = (\<lambda>k. if base + unat tot \<le> k \<and> k < base + unat tot + unat c
        then f (p mod 1024 + (k - (base + unat tot))) else buf k)"
    define st1 where "st1 = file_upd st fh (\<lambda>f. f\<lparr>of_offset := of_offset f + c\<rparr>)"
    have unf: "read_indirect_loop st fh t buf base tot
        = read_indirect_loop st1 fh (t - c) buf1 base (tot + c)"
      apply (subst read_indirect_loop.simps)
      apply (simp only: Let_def off_def[symmetric] bo_def[symmetric] chunk)
      using tpos cble c1 f pdiv c2
      apply (simp add: cbint data_block_get_def valid_block_number_def memcpy_from_block_def
          ubo buf1_def st1_def nat_add_distrib)
      done
    have u1: "unat (t - c) = unat t - unat c" using c1 by (simp add: unat_sub_le)
    have u2: "unat (tot + c) = unat tot + unat c"
      using c1 less.prems(4) by (intro unat_add_small) simp
    have o1: "unat (of_offset (open_file_table st1 fh)) = p + unat c"
      using c1 p by (simp add: st1_def off_def[symmetric] unat_add_small uoff)
    have "\<exists>buf'. read_indirect_loop st1 fh (t - c) buf1 base (tot + c)
            = Some (tot + c + (t - c), file_upd st1 fh (\<lambda>f. f\<lparr>of_offset := of_offset f + (t - c)\<rparr>), buf')
          \<and> (\<forall>k. buf' k = read_result st1 2 buf1 (base + unat (tot + c)) (p + unat c) (unat (t - c)) k)"
      using c1 less.prems(2,3,4)
      by (intro less.hyps o1) (simp_all add: u1 u2 st1_def)
    then obtain buf' where l: "read_indirect_loop st1 fh (t - c) buf1 base (tot + c)
            = Some (tot + c + (t - c), file_upd st1 fh (\<lambda>f. f\<lparr>of_offset := of_offset f + (t - c)\<rparr>), buf')"
      and b': "\<And>k. buf' k = read_result st1 2 buf1 (base + unat (tot + c)) (p + unat c) (unat (t - c)) k"
      by blast
    have e1: "tot + c + (t - c) = tot + t" by simp
    have e2: "file_upd st1 fh (\<lambda>f. f\<lparr>of_offset := of_offset f + (t - c)\<rparr>)
        = file_upd st fh (\<lambda>f. f\<lparr>of_offset := of_offset f + t\<rparr>)"
      by (simp add: st1_def file_upd_offset_add)
    have "buf' k = read_result st 2 buf (base + unat tot) p (unat t) k" for k
    proof (cases "base + unat tot \<le> k \<and> k < base + unat tot + unat c")
      case True
      define d where "d = k - (base + unat tot)"
      have d: "d < 1024 - p mod 1024" using True c1 unfolding d_def by linarith
      have "buf' k = buf1 k" using True by (simp add: b' read_result_def u2)
      also have "\<dots> = f (p mod 1024 + d)" using True by (simp add: buf1_def d_def)
      also have "\<dots> = read_result st 2 buf (base + unat tot) p (unat t) k"
        using True c1 same_block[OF d] f by (simp add: read_result_def d_def[symmetric])
      finally show ?thesis .
    next
      case False
      show ?thesis
      proof (cases "base + unat tot + unat c \<le> k \<and> k < base + unat tot + unat t")
        case True
        have "p + unat c + (k - (base + unat tot + unat c)) = p + (k - (base + unat tot))"
          using True by linarith
        then show ?thesis using True c1
          by (simp add: b' read_result_def u1 u2 st1_def add.assoc)
      next
        case F2: False
        then show ?thesis using False c1
          by (auto simp: b' read_result_def u1 u2 buf1_def)
      qed
    qed
    then show ?thesis using l unfolding unf e1 e2 by blast
  qed
qed

section \<open>Creating, writing, reopening and reading the first file\<close>

abbreviation empty_entry :: dir_entry where
  "empty_entry \<equiv> \<lparr>d_name = [], d_inumber = -1\<rparr>"

lemma find_entry_empty: "find_entry (replicate k empty_entry) nm = -1"
  by (induction k) simp_all

lemma fill_first_empty_replicate:
  "0 < k \<Longrightarrow> fill_first_empty (replicate k empty_entry) i nm
     = Some (\<lparr>d_name = strncpy_name nm, d_inumber = i\<rparr> # replicate (k - 1) empty_entry)"
  by (cases k) simp_all

lemma MAX_DIR_ENTRIES_pos: "0 < MAX_DIR_ENTRIES"
  by (simp add: MAX_DIR_ENTRIES_def sizeof_dir_entry_t_def)

definition root_dir :: "string \<Rightarrow> block" where
  "root_dir nm = Dir (\<lparr>d_name = strncpy_name nm, d_inumber = 1\<rparr>
                       # replicate (MAX_DIR_ENTRIES - 1) empty_entry)"

definition created_state :: "string \<Rightarrow> fs_state" where
  "created_state nm = init_state
     \<lparr>freeinode_ts := (freeinode_ts init_state)(1 := TAKEN),
      inode_table := (inode_table init_state)
        (1 := \<lparr>i_node_type = T_FILE, i_size = 0, i_data_block = -1, i_block = (\<lambda>k. -1)\<rparr>),
      fs_data := (fs_data init_state)(0 := root_dir nm),
      free_open_file_entries := (\<lambda>h. FREE)(0 := TAKEN),
      open_file_table := (open_file_table init_state)(0 := \<lparr>of_inumber = 1, of_offset = 0\<rparr>)\<rparr>"

lemma flags_simps [simp]:
  "TFS_O_CREAT AND TFS_O_CREAT \<noteq> 0" "0 AND TFS_O_TRUNC = 0" "0 AND TFS_O_APPEND = 0"
  "0 AND TFS_O_CREAT = 0" "TFS_O_CREAT \<noteq> 0"
  by (simp_all add: TFS_O_CREAT_def TFS_O_TRUNC_def TFS_O_APPEND_def)

lemma lookup_init:
  assumes "valid_pathname (Some path)"
  shows "tfs_lookup init_state (Some path) = Some (-1)"
  using assms
  by (simp add: tfs_lookup_def find_in_dir_def valid_inumber_def tfs_init_boot(2) boot_state_def
      data_block_get_def valid_block_number_def find_entry_empty)

lemma open_create_init:
  assumes "valid_pathname (Some path)"
  shows "tfs_open init_state (Some path) TFS_O_CREAT = Some (0, created_state (tl path))"
proof -
  have nm: "length (tl path) \<noteq> 0" using assms by (simp add: valid_pathname_def)
  have ic: "inode_create init_state T_FILE =
      (1, init_state\<lparr>freeinode_ts := (freeinode_ts init_state)(1 := TAKEN),
          inode_table := (inode_table init_state)
            (1 := \<lparr>i_node_type = T_FILE, i_size = 0, i_data_block = -1, i_block = (\<lambda>k. -1)\<rparr>)\<rparr>)"
    by (simp add: inode_create_def tfs_init_boot(2) boot_state_def first_free_1 Let_def)
  show ?thesis
    using assms nm MAX_DIR_ENTRIES_pos
    by (simp add: tfs_open_def lookup_init ic add_dir_entry_def valid_inumber_def
        data_block_get_def valid_block_number_def fill_first_empty_replicate
        add_to_open_file_table_def first_free_0 created_state_def root_dir_def Let_def)
       (simp add: tfs_init_boot(2) boot_state_def fill_first_empty_replicate
        add_to_open_file_table_def first_free_0)
qed

lemma created_dinv: "dinv (created_state nm) 1 0 buf (root_dir nm) 0"
  by (simp add: dinv_def created_state_def tfs_init_boot(2) boot_state_def)

lemma tfs_read_written:
  assumes fh: "get_open_file_entry fhandle = Some fh"
    and ino: "inode_get (of_inumber (open_file_table st fh)) = Some ino"
    and off: "of_offset (open_file_table st fh) = 0"
    and sz: "unat (i_size (inode_table st ino)) = s" "s \<le> 272384"
    and isb: "\<forall>b\<ge>1. is_Bytes (fs_data st b)"
    and content: "\<forall>j. j < s \<longrightarrow> bytes_of (fs_data st (blk_of j)) (j mod 1024) = buf j"
    and n: "0 < unat n" "unat n \<le> s"
  shows "\<exists>st' dst'. tfs_read st fhandle dst n = Some (int (unat n), st', dst')
            \<and> (\<forall>k. k < unat n \<longrightarrow> dst' k = buf k)"
proof -
  have n0: "n \<noteq> 0" using n by (auto simp: unat_eq_0)
  have nle: "unat n \<le> 272384" using n sz by linarith
  have tr: "(if n < i_size (inode_table st ino) then n else i_size (inode_table st ino)) = n"
    using n sz by (auto simp: word_less_nat_alt word_unat_eq_iff)
  have uoff: "unat (of_offset (open_file_table st fh)) = 0" by (simp add: off)
  have cnt: "bytes_of (fs_data st (blk_of k)) (k mod 1024) = buf k" if "k < s" for k
    using content that by blast
  show ?thesis
  proof (cases "unat n \<le> 10240")
    case True
    then have le: "n \<le> 10240" by (simp add: word_le_nat_alt)
    from read_direct_loop_spec[OF uoff _ isb, of n 0 dst 0] True nle
    obtain dst' where l: "read_direct_loop st fh n dst 0 0
          = Some (n, file_upd st fh (\<lambda>f. f\<lparr>of_offset := of_offset f + n\<rparr>), dst')"
      and d: "\<And>k. dst' k = read_result st 1 dst 0 0 (unat n) k" by auto
    have "tfs_read st fhandle dst n
        = Some (sint n, file_upd st fh (\<lambda>f. f\<lparr>of_offset := of_offset f + n\<rparr>), dst')"
      using small_ne_m1[OF nle]
      by (simp add: tfs_read_def n0 fh ino Let_def off tr le tfs_read_direct_region_def l)
    moreover have "dst' k = buf k" if "k < unat n" for k
    proof -
      have "k < s" "k < 10240" using that n True by linarith+
      then show ?thesis using cnt[of k] that by (simp add: d read_result_def blk_of_def)
    qed
    ultimately show ?thesis using nle by (auto simp: sint_small)
  next
    case False
    then have nle': "\<not> n \<le> 10240" by (simp add: word_le_nat_alt)
    have un: "unat (n - 10240) = unat n - 10240" using False by (simp add: unat_sub_le)
    from read_direct_loop_spec[OF uoff _ isb, of 10240 0 dst 0]
    obtain dst1 where l1: "read_direct_loop st fh 10240 dst 0 0
          = Some (10240, file_upd st fh (\<lambda>f. f\<lparr>of_offset := of_offset f + 10240\<rparr>), dst1)"
      and d1: "\<And>k. dst1 k = read_result st 1 dst 0 0 10240 k" by auto
    define st1 where "st1 = file_upd st fh (\<lambda>f. f\<lparr>of_offset := of_offset f + 10240\<rparr>)"
    have o1: "unat (of_offset (open_file_table st1 fh)) = 10240" by (simp add: st1_def off)
    have isb1: "\<forall>b\<ge>1. is_Bytes (fs_data st1 b)" using isb by (simp add: st1_def)
    have b1: "10240 + unat (n - 10240) \<le> 272384" using nle False by (simp add: un)
    have b2: "unat (0::size_t) + unat (n - 10240) \<le> 272384" using nle False by (simp add: un)
    from read_indirect_loop_spec[OF o1 b1 isb1 b2, of dst1 10240]
    obtain st2 dst2 where l2: "read_indirect_loop st1 fh (n - 10240) dst1 10240 0
          = Some (n - 10240, st2, dst2)"
      and d2: "\<And>k. dst2 k = read_result st1 2 dst1 10240 10240 (unat n - 10240) k"
      by (auto simp: un)
    have ne: "n - 10240 \<noteq> -1" using nle un by (intro small_ne_m1) simp
    have split: "(if 10240 < n + 0 then 10240 - 0 else 0) = (10240::size_t)"
      using nle' by (simp add: not_le)
    have ngt: "10240 < n" using nle' by (simp add: not_le)
    have "tfs_read st fhandle dst n = Some (sint n, st2, dst2)"
      by (simp add: tfs_read_def n0 fh ino Let_def off tr tfs_read_direct_region_def l1 nle' ngt
          st1_def[symmetric] tfs_read_indirect_region_def l2 ne)
    moreover have "dst2 k = buf k" if "k < unat n" for k
    proof (cases "k < 10240")
      case True
      then have "k < s" using False n by linarith
      then show ?thesis using cnt[of k] True
        by (simp add: d2 d1 read_result_def blk_of_def)
    next
      case F: False
      have "10240 + (k - 10240) = k" using F by simp
      moreover have "k < s" using that n by linarith
      ultimately show ?thesis using cnt[of k] F that
        by (simp add: d2 read_result_def blk_of_def st1_def)
    qed
    ultimately show ?thesis using nle by (auto simp: sint_small)
  qed
qed

definition write_then_read ::
  "string \<Rightarrow> bool \<Rightarrow> (nat \<Rightarrow> byte) \<Rightarrow> size_t \<Rightarrow> (nat \<Rightarrow> byte)
     \<Rightarrow> (int \<times> int \<times> (nat \<Rightarrow> byte)) option" where
  "write_then_read path closing buf n dst =
     (case tfs_init boot_state of (r0, s0) \<Rightarrow>
      case tfs_open s0 (Some path) TFS_O_CREAT of
        None \<Rightarrow> None
      | Some (fh, s1) \<Rightarrow>
          (case tfs_write s1 fh buf n of
             None \<Rightarrow> None
           | Some (written_bytes, s2) \<Rightarrow>
               let s3 = (if closing then snd (tfs_close s2 fh) else s2) in
               (case tfs_open s3 (Some path) 0 of
                  None \<Rightarrow> None
                | Some (fh', s4) \<Rightarrow>
                    (case tfs_read s4 fh' dst n of
                       None \<Rightarrow> None
                     | Some (read_bytes, s5, dst') \<Rightarrow> Some (written_bytes, read_bytes, dst')))))"

lemma strncmp_stored_name:
  "strncmp_eq (strncpy_name nm) nm MAX_FILE_NAME \<longleftrightarrow> length nm \<le> 39"
proof -
  have "take 40 (take 39 nm) = take 39 nm" by simp
  moreover have "take 39 nm = take 40 nm \<longleftrightarrow> length nm \<le> 39"
  proof
    assume "take 39 nm = take 40 nm"
    then have "length (take 39 nm) = length (take 40 nm)" by simp
    then show "length nm \<le> 39" by (simp add: min_def split: if_splits)
  qed simp
  ultimately show ?thesis by (simp add: strncmp_eq_def strncpy_name_def)
qed

lemma lookup_created:
  assumes "valid_pathname (Some path)"
    and "inode_table st 0 = inode_table (created_state (tl path)) 0"
    and "fs_data st 0 = root_dir (tl path)"
  shows "tfs_lookup st (Some path) = Some (if length path \<le> 40 then 1 else -1)"
proof -
  have "length (tl path) \<le> 39 \<longleftrightarrow> length path \<le> 40" by (cases path) auto
  then show ?thesis
    using assms
    by (simp add: tfs_lookup_def find_in_dir_def valid_inumber_def created_state_def
        tfs_init_boot(2) boot_state_def data_block_get_def valid_block_number_def root_dir_def
        strncmp_stored_name find_entry_empty)
qed

lemma write_then_read_long_name:
  assumes vp: "valid_pathname (Some path)" and long: "40 < length path"
    and n: "n \<noteq> 0" "unat n \<le> 272384"
  shows "write_then_read path closing buf n dst = Some (int (unat n), -1, dst)"
proof -
  have n': "0 < unat n" using n by (simp add: unat_gt_0)
  from tfs_write_fresh[OF created_dinv, of 0 "tl path" n buf] n' n
  obtain s2 where w: "tfs_write (created_state (tl path)) 0 buf n = Some (int (unat n), s2)"
    and fr: "wframe (created_state (tl path)) s2 1 0"
    and wr: "written s2 1 0 buf (root_dir (tl path)) (unat n)"
    by (auto simp: get_open_file_entry_def valid_file_handle_def inode_get_def valid_inumber_def
        created_state_def)
  define s3 where "s3 = (if closing then snd (tfs_close s2 0) else s2)"
  have i3: "inode_table s3 0 = inode_table (created_state (tl path)) 0"
    using fr by (simp add: s3_def wframe_def tfs_close_def remove_from_open_file_table_def)
  have d3: "fs_data s3 0 = root_dir (tl path)"
    using wr by (simp add: s3_def written_def tfs_close_def remove_from_open_file_table_def)
  have "tfs_lookup s3 (Some path) = Some (-1)"
    using lookup_created[OF vp i3 d3] long by simp
  then have o: "tfs_open s3 (Some path) 0 = Some (-1, s3)"
    using vp by (simp add: tfs_open_def)
  have r: "tfs_read s3 (-1) dst n = Some (-1, s3, dst)"
    using n by (simp add: tfs_read_def get_open_file_entry_def valid_file_handle_def)
  show ?thesis
    by (simp add: write_then_read_def tfs_init_boot(1) open_create_init[OF vp] w
        s3_def[symmetric] o r)
qed

lemma write_then_read_short_name:
  assumes vp: "valid_pathname (Some path)" and short: "length path \<le> 40"
    and n: "n \<noteq> 0" "unat n \<le> 272384"
  shows "\<exists>dst'. write_then_read path closing buf n dst = Some (int (unat n), int (unat n), dst')
           \<and> (\<forall>k. k < unat n \<longrightarrow> dst' k = buf k)"
proof -
  have n': "0 < unat n" using n by (simp add: unat_gt_0)
  from tfs_write_fresh[OF created_dinv, of 0 "tl path" n buf] n' n
  obtain s2 where w: "tfs_write (created_state (tl path)) 0 buf n = Some (int (unat n), s2)"
    and fr: "wframe (created_state (tl path)) s2 1 0"
    and wr: "written s2 1 0 buf (root_dir (tl path)) (unat n)"
    by (auto simp: get_open_file_entry_def valid_file_handle_def inode_get_def valid_inumber_def
        created_state_def)
  define s3 where "s3 = (if closing then snd (tfs_close s2 0) else s2)"
  have i3: "inode_table s3 = inode_table s2" and d3': "fs_data s3 = fs_data s2"
    by (simp_all add: s3_def tfs_close_def remove_from_open_file_table_def)
  have i30: "inode_table s3 0 = inode_table (created_state (tl path)) 0"
    using fr by (simp add: i3 wframe_def)
  have d3: "fs_data s3 0 = root_dir (tl path)"
    using wr by (simp add: d3' written_def)
  have f2: "free_open_file_entries s2 = (\<lambda>h. FREE)(0 := TAKEN)"
    using fr by (simp add: wframe_def created_state_def)
  define h :: nat where "h = (if closing then 0 else 1)"
  have ff: "first_free (free_open_file_entries s3) MAX_OPEN_FILES = Some h"
    by (auto simp: s3_def h_def f2 tfs_close_def remove_from_open_file_table_def
        valid_file_handle_def intro!: first_free_least)
  define s4 where "s4 = s3\<lparr>free_open_file_entries := (free_open_file_entries s3)(h := TAKEN),
      open_file_table := (open_file_table s3)
        (h := (open_file_table s3 h)\<lparr>of_inumber := 1, of_offset := 0\<rparr>)\<rparr>"
  have lk: "tfs_lookup s3 (Some path) = Some 1"
    using lookup_created[OF vp i30 d3] short by simp
  have o: "tfs_open s3 (Some path) 0 = Some (int h, s4)"
    using vp by (simp add: tfs_open_def lk inode_get_def valid_inumber_def
        add_to_open_file_table_def ff s4_def)
  have hv: "get_open_file_entry (int h) = Some h"
    by (simp add: get_open_file_entry_def valid_file_handle_def h_def)
  have "\<exists>st' dst'. tfs_read s4 (int h) dst n = Some (int (unat n), st', dst')
            \<and> (\<forall>k. k < unat n \<longrightarrow> dst' k = buf k)"
  proof (rule tfs_read_written[OF hv, where ino = 1 and s = "unat n"])
    show "inode_get (of_inumber (open_file_table s4 h)) = Some 1"
      by (simp add: s4_def inode_get_def valid_inumber_def)
    show "of_offset (open_file_table s4 h) = 0" by (simp add: s4_def)
    show "unat (i_size (inode_table s4 1)) = unat n"
      using wr by (simp add: s4_def i3 written_def)
    show "unat n \<le> 272384" by (rule n)
    show "\<forall>b\<ge>1. is_Bytes (fs_data s4 b)" using wr by (simp add: s4_def d3' written_def)
    show "\<forall>j. j < unat n \<longrightarrow> bytes_of (fs_data s4 (blk_of j)) (j mod 1024) = buf j"
      using wr by (simp add: s4_def d3' written_def)
    show "0 < unat n" by (rule n')
    show "unat n \<le> unat n" by simp
  qed
  then obtain st' dst' where r: "tfs_read s4 (int h) dst n = Some (int (unat n), st', dst')"
    and c: "\<forall>k. k < unat n \<longrightarrow> dst' k = buf k" by blast
  have "write_then_read path closing buf n dst = Some (int (unat n), int (unat n), dst')"
    by (simp add: write_then_read_def tfs_init_boot(1) open_create_init[OF vp] w
        s3_def[symmetric] o r)
  with c show ?thesis by blast
qed

section \<open>The round trip of a write and a read\<close>

text \<open>Buffers for the examples: the bytes of \<open>"hello"\<close>, and a buffer of zeros.\<close>

definition hello :: "nat \<Rightarrow> byte" where
  "hello k = [104, 101, 108, 108, 111, 0] ! min k 5"

definition zero_buffer :: "nat \<Rightarrow> byte" where
  "zero_buffer k = 0"

text \<open>
  Claim C1 says that for every valid path and every \<open>n > 0\<close> the round trip returns
  \<open>n\<close> and the bytes written. As stated it fails: \<open>add_dir_entry\<close> stores the first 39
  characters of the name and \<open>find_in_dir\<close> compares 40, so a file whose name has 40
  characters or more is never found again. For the path below (a name of 40 letters)
  the second \<open>tfs_open\<close> returns \<open>-1\<close> and so does the read on that handle.
\<close>

theorem round_trip_long_name_counterexample:
  "write_then_read ''/aaaaaaaaaaaaaaaaaaaaaaaaaaaaaaaaaaaaaaaa'' True hello 5 zero_buffer
     = Some (5, -1, zero_buffer)"
  using write_then_read_long_name
    [of "''/aaaaaaaaaaaaaaaaaaaaaaaaaaaaaaaaaaaaaaaa''" 5 True hello zero_buffer]
  by (simp add: valid_pathname_def)

text \<open>
  Claim C1, amended. For every path that is valid and at most 40 characters long (a
  name of at most 39), and every \<open>n\<close> with \<open>0 < n \<le> MAX_BYTES\<close>: after \<open>tfs_init\<close>,
  creating the file and writing \<open>n\<close> bytes of \<open>buf\<close> through the handle of that open
  (whether or not the handle is closed afterwards), a read of \<open>n\<close> bytes through a second
  open of the path returns \<open>n\<close> (as did the write), and the first \<open>n\<close> bytes of the
  destination buffer are those of \<open>buf\<close>.
\<close>

theorem round_trip_short_name:
  assumes "valid_pathname (Some path)" and "length path \<le> MAX_FILE_NAME"
    and "n \<noteq> 0" and "n \<le> MAX_BYTES"
  shows "\<exists>dst'. write_then_read path closing buf n dst = Some (int (unat n), int (unat n), dst')
           \<and> (\<forall>k. k < unat n \<longrightarrow> dst' k = buf k)"
  using assms by (intro write_then_read_short_name) (simp_all add: word_le_nat_alt)

theorem round_trip_short_name_witness:
  "\<exists>dst'. write_then_read ''/a'' True hello 5 zero_buffer = Some (5, 5, dst')
         \<and> map dst' [0, 1, 2, 3, 4] = [104, 101, 108, 108, 111]"
proof -
  from round_trip_short_name[of "''/a''" 5 True hello zero_buffer]
  obtain dst' where w: "write_then_read ''/a'' True hello 5 zero_buffer = Some (5, 5, dst')"
    and d: "\<forall>k. k < 5 \<longrightarrow> dst' k = hello k"
    by (auto simp: valid_pathname_def)
  have "map dst' [0, 1, 2, 3, 4] = map hello [0, 1, 2, 3, 4]" using d by simp
  then have "map dst' [0, 1, 2, 3, 4] = [104, 101, 108, 108, 111]" by (simp add: hello_def)
  with w show ?thesis by (intro exI[of _ dst']) simp
qed

section \<open>The contents of a newly allocated block\<close>

lemma store_i_block_frame:
  assumes "store_i_block st ino slot v = Some st'"
  shows "fs_data st' = fs_data st" "free_blocks st' = free_blocks st"
    "open_file_table st' = open_file_table st"
    "free_open_file_entries st' = free_open_file_entries st"
  using assms
  by (auto simp: store_i_block_def store_inode_table_int_def Let_def inode_upd_def
      split: if_splits)

lemma store_inode_table_int_other:
  assumes "store_inode_table_int st (int n) v = Some st'"
    and "n div 160 \<noteq> ino \<or> 64 \<le> n mod 160"
  shows "inode_table st' ino = inode_table st ino"
  using assms
  by (auto simp: store_inode_table_int_def Let_def sizeof_inode_t_def inode_upd_def
      split: if_splits)

lemma store_inode_table_int_data_block:
  assumes "store_inode_table_int st (int n) v = Some st'"
    and "n div 160 = ino" and "n mod 160 = 16"
  shows "inode_table st' ino = (inode_table st ino)\<lparr>i_data_block := v\<rparr>
       \<or> inode_table st' ino = inode_table st ino"
  using assms
  by (auto simp: store_inode_table_int_def Let_def sizeof_inode_t_def inode_upd_def
      split: if_splits)

lemma store_i_block_own:
  assumes st: "store_i_block st ino slot v = Some st'" and slot: "-1 \<le> slot"
    and v: "i_data_block (inode_table st ino) = v"
  shows "i_data_block (inode_table st' ino) = v"
    and "i_size (inode_table st' ino) = i_size (inode_table st ino)"
proof -
  have "i_data_block (inode_table st' ino) = v
      \<and> i_size (inode_table st' ino) = i_size (inode_table st ino)"
  proof (cases "0 \<le> slot \<and> slot < 11")
    case True
    then show ?thesis using st v by (auto simp: store_i_block_def)
  next
    case False
    define r where "r = nat (20 + 4 * slot)"
    have a: "int (sizeof_inode_t * ino) + 20 + 4 * slot = int (160 * ino + r)"
      using slot by (simp add: r_def sizeof_inode_t_def)
    have "store_inode_table_int st (int (sizeof_inode_t * ino) + 20 + 4 * slot) v = Some st'"
      using st False by (simp add: store_i_block_def)
    then have s: "store_inode_table_int st (int (160 * ino + r)) v = Some st'"
      unfolding a .
    have dm: "(160 * ino + r) div 160 = ino + r div 160" "(160 * ino + r) mod 160 = r mod 160"
      by simp_all
    have rr: "r = 16 \<or> 64 \<le> r" using False slot unfolding r_def by linarith
    show ?thesis
    proof (cases "r = 16")
      case True
      have "inode_table st' ino = (inode_table st ino)\<lparr>i_data_block := v\<rparr>
          \<or> inode_table st' ino = inode_table st ino"
        using s by (rule store_inode_table_int_data_block) (simp_all add: True)
      then show ?thesis using v by auto
    next
      case F: False
      then have r64: "64 \<le> r" using rr by simp
      have "(160 * ino + r) div 160 \<noteq> ino \<or> 64 \<le> (160 * ino + r) mod 160"
      proof (cases "r < 160")
        case True
        then show ?thesis using r64 by (simp add: dm)
      next
        case False
        then have "1 \<le> r div 160" by (simp add: Suc_le_eq div_greater_zero_iff)
        then show ?thesis by (simp add: dm)
      qed
      with s have "inode_table st' ino = inode_table st ino"
        by (rule store_inode_table_int_other)
      then show ?thesis using v by simp
    qed
  qed
  then show "i_data_block (inode_table st' ino) = v"
    and "i_size (inode_table st' ino) = i_size (inode_table st ino)" by simp_all
qed

lemma direct_block_insert_SomeD:
  assumes "direct_block_insert st ino = Some (r, st1)" and "r \<noteq> -1"
  shows "\<exists>b f. first_free (free_blocks st) DATA_BLOCKS = Some b \<and> fs_data st b = Bytes f \<and>
           free_blocks st1 = (free_blocks st)(b := TAKEN) \<and>
           fs_data st1 = (fs_data st)(b := Bytes (\<lambda>k. if k < BLOCK_SIZE then -1 else f k)) \<and>
           i_data_block (inode_table st1 ino) = int b \<and>
           open_file_table st1 = open_file_table st \<and>
           i_size (inode_table st1 ino) = i_size (inode_table st ino)"
proof (cases "first_free (free_blocks st) DATA_BLOCKS")
  case None
  then show ?thesis using assms
    by (simp add: direct_block_insert_def data_block_alloc_def Let_def inode_upd_def)
next
  case (Some b)
  then have b: "b < 1024" by (simp add: first_free_Some_iff)
  show ?thesis
  proof (cases "fs_data st b")
    case (Dir es)
    then show ?thesis using assms Some b
      by (simp add: direct_block_insert_def data_block_alloc_def Let_def inode_upd_def
          data_block_get_def valid_block_number_def memset_block_def)
  next
    case (Bytes f)
    define st3 where "st3 = st\<lparr>free_blocks := (free_blocks st)(b := TAKEN),
        inode_table := (inode_table st)(ino := (inode_table st ino)\<lparr>i_data_block := int b\<rparr>),
        fs_data := (fs_data st)(b := Bytes (\<lambda>k. if k < BLOCK_SIZE then -1 else f k))\<rparr>"
    have s: "store_i_block st3 ino (int b - 1) (int b) = Some st1"
      using assms Some b Bytes
      by (auto simp: direct_block_insert_def data_block_alloc_def Let_def inode_upd_def
          data_block_get_def valid_block_number_def memset_block_def st3_def
          split: option.splits)
    have v: "i_data_block (inode_table st3 ino) = int b" by (simp add: st3_def)
    have "free_blocks st1 = (free_blocks st)(b := TAKEN)"
      using store_i_block_frame(2)[OF s] by (simp add: st3_def)
    moreover have "fs_data st1 = (fs_data st)(b := Bytes (\<lambda>k. if k < BLOCK_SIZE then -1 else f k))"
      using store_i_block_frame(1)[OF s] by (simp add: st3_def)
    moreover have "i_data_block (inode_table st1 ino) = int b"
      using store_i_block_own(1)[OF s _ v] by simp
    moreover have "open_file_table st1 = open_file_table st"
      using store_i_block_frame(3)[OF s] by (simp add: st3_def)
    moreover have "i_size (inode_table st1 ino) = i_size (inode_table st ino)"
      using store_i_block_own(2)[OF s _ v] by (simp add: st3_def)
    ultimately show ?thesis using Some Bytes by simp
  qed
qed

lemma write_direct_body_alloc:
  assumes body: "write_direct_body st ino fh buffer ws bw = Some (Inr (st', ws', bw'))"
    and al: "i_size (inode_table st ino) mod BLOCK_SIZE = 0"
  shows "\<exists>b f. first_free (free_blocks st) DATA_BLOCKS = Some b
           \<and> free_blocks st' = (free_blocks st)(b := TAKEN)
           \<and> i_data_block (inode_table st' ino) = int b
           \<and> fs_data st' b = Bytes f
           \<and> (\<forall>k. k < BLOCK_SIZE \<longrightarrow>
                 f k = (if unat (of_offset (open_file_table st fh) mod BLOCK_SIZE) \<le> k
                           \<and> k < unat (of_offset (open_file_table st fh) mod BLOCK_SIZE) + unat (bw' - bw)
                        then buffer (unat bw + (k - unat (of_offset (open_file_table st fh) mod BLOCK_SIZE)))
                        else -1))"
proof -
  from body al obtain r st1 where ins: "direct_block_insert st ino = Some (r, st1)" and r: "r \<noteq> -1"
    by (auto simp: write_direct_body_def split: option.splits if_splits)
  from direct_block_insert_SomeD[OF ins r]
  obtain b f where ff: "first_free (free_blocks st) DATA_BLOCKS = Some b"
    and fb1: "free_blocks st1 = (free_blocks st)(b := TAKEN)"
    and fd1: "fs_data st1 = (fs_data st)(b := Bytes (\<lambda>k. if k < BLOCK_SIZE then -1 else f k))"
    and db1: "i_data_block (inode_table st1 ino) = int b"
    and of1: "open_file_table st1 = open_file_table st" by blast
  have b: "b < 1024" using ff by (simp add: first_free_Some_iff)
  define off where "off = of_offset (open_file_table st fh) mod BLOCK_SIZE"
  define twb where "twb = (if ws \<ge> BLOCK_SIZE \<or> BLOCK_SIZE - off < ws then BLOCK_SIZE - off else ws)"
  from body obtain st2 where
    mc: "memcpy_to_block st1 b (unat off) (\<lambda>k. buffer (unat bw + k)) (unat twb) = Some st2"
    and st': "st' = inode_upd (file_upd st2 fh (\<lambda>f. f\<lparr>of_offset := of_offset f + twb\<rparr>)) ino
                     (\<lambda>i. i\<lparr>i_size := i_size i + twb\<rparr>)"
    and bw': "bw' = bw + twb"
    using r b
    by (auto simp: write_direct_body_def al ins db1 data_block_get_def valid_block_number_def
        Let_def of1 off_def twb_def split: option.splits if_splits)
  have e: "bw' - bw = twb" by (simp add: bw')
  have fd2: "fs_data st2 b = Bytes (\<lambda>k. if unat off \<le> k \<and> k < unat off + unat twb
                 then buffer (unat bw + (k - unat off))
                 else if k < BLOCK_SIZE then -1 else f k)"
    using mc by (auto simp: memcpy_to_block_def fd1 split: if_splits)
  have "free_blocks st' = (free_blocks st)(b := TAKEN)"
    using memcpy_to_block_frame(3)[OF mc] by (simp add: st' fb1)
  moreover have "i_data_block (inode_table st' ino) = int b"
    using memcpy_to_block_frame(1)[OF mc] by (simp add: st' db1)
  moreover have "fs_data st' b = Bytes (\<lambda>k. if unat off \<le> k \<and> k < unat off + unat twb
                 then buffer (unat bw + (k - unat off))
                 else if k < BLOCK_SIZE then -1 else f k)"
    by (simp add: st' fd2)
  ultimately show ?thesis using ff unfolding e off_def[symmetric] by auto
qed

lemma write_direct_body_no_alloc:
  assumes body: "write_direct_body st ino fh buffer ws bw = Some (Inr (st', ws', bw'))"
    and al: "i_size (inode_table st ino) mod BLOCK_SIZE \<noteq> 0"
  shows "free_blocks st' = free_blocks st
           \<and> i_data_block (inode_table st' ino) = i_data_block (inode_table st ino)"
  using assms
  by (auto simp: write_direct_body_def Let_def memcpy_to_block_frame
      split: option.splits if_splits)

lemma store_inode_table_int_Some:
  assumes "0 \<le> a" and "a + 4 \<le> 8296"
  shows "\<exists>st'. store_inode_table_int st a v = Some st'"
  using assms by (simp add: store_inode_table_int_def Let_def)

lemma direct_block_insert_total:
  assumes ff: "first_free (free_blocks st) DATA_BLOCKS = Some b"
    and isb: "is_Bytes (fs_data st b)"
    and inside: "sizeof_inode_t * ino + INT_SIZE * b + 20 \<le> 8296"
  shows "\<exists>st1. direct_block_insert st ino = Some (0, st1)"
proof -
  have b: "b < 1024" using ff by (simp add: first_free_Some_iff)
  obtain f where f: "fs_data st b = Bytes f" using isb by (cases "fs_data st b") auto
  define st3 where "st3 = st\<lparr>free_blocks := (free_blocks st)(b := TAKEN),
      inode_table := (inode_table st)(ino := (inode_table st ino)\<lparr>i_data_block := int b\<rparr>),
      fs_data := (fs_data st)(b := Bytes (\<lambda>k. if k < BLOCK_SIZE then -1 else f k))\<rparr>"
  have "\<exists>st4. store_i_block st3 ino (int b - 1) (int b) = Some st4"
  proof (cases "0 \<le> int b - 1 \<and> int b - 1 < 11")
    case True
    then show ?thesis by (simp add: store_i_block_def)
  next
    case False
    have "\<exists>st4. store_inode_table_int st3 (int (sizeof_inode_t * ino) + 20 + 4 * (int b - 1)) (int b)
             = Some st4"
      using inside by (intro store_inode_table_int_Some) (simp_all add: sizeof_inode_t_def)
    then show ?thesis using False by (simp add: store_i_block_def)
  qed
  then obtain st4 where s: "store_i_block st3 ino (int b - 1) (int b) = Some st4" by blast
  have "direct_block_insert st ino = Some (0, st4)"
    using b f s
    by (simp add: direct_block_insert_def data_block_alloc_def ff Let_def inode_upd_def
        data_block_get_def valid_block_number_def memset_block_def st3_def)
  then show ?thesis by blast
qed

lemma write_direct_body_total:
  assumes al: "i_size (inode_table st ino) mod BLOCK_SIZE = 0"
    and ff: "first_free (free_blocks st) DATA_BLOCKS = Some b"
    and isb: "is_Bytes (fs_data st b)"
    and inside: "sizeof_inode_t * ino + INT_SIZE * b + 20 \<le> 8296"
  shows "\<exists>st' ws' bw'. write_direct_body st ino fh buffer ws bw = Some (Inr (st', ws', bw'))"
proof -
  from direct_block_insert_total[OF ff isb inside]
  obtain st1 where ins: "direct_block_insert st ino = Some (0, st1)" by blast
  from direct_block_insert_SomeD[OF ins]
  obtain b' f where ff': "first_free (free_blocks st) DATA_BLOCKS = Some b'"
    and fd1: "fs_data st1 = (fs_data st)(b' := Bytes (\<lambda>k. if k < BLOCK_SIZE then -1 else f k))"
    and db1: "i_data_block (inode_table st1 ino) = int b'"
    and of1: "open_file_table st1 = open_file_table st" by auto
  have bb: "b' = b" using ff ff' by simp
  have b: "b < 1024" using ff by (simp add: first_free_Some_iff)
  define off where "off = of_offset (open_file_table st fh) mod BLOCK_SIZE"
  define twb where "twb = (if ws \<ge> BLOCK_SIZE \<or> BLOCK_SIZE - off < ws then BLOCK_SIZE - off else ws)"
  have ol: "off < 1024" unfolding off_def by (rule mod_1024_less)
  have tm: "twb = min ws (1024 - off)" unfolding twb_def using ol by (rule chunk_min(1))
  have "unat twb \<le> 1024 - unat off"
    by (simp add: tm unat_min unat_1024_minus[OF ol])
  moreover have "unat off < 1024" using ol by (simp add: word_less_nat_alt)
  ultimately have fit: "unat off + unat twb \<le> 1024" by linarith
  obtain st2 where mc: "memcpy_to_block st1 b (unat off) (\<lambda>k. buffer (unat bw + k)) (unat twb) = Some st2"
    using fit by (simp add: memcpy_to_block_def fd1 bb)
  show ?thesis
    using b mc
    by (simp add: write_direct_body_def al ins db1 bb data_block_get_def valid_block_number_def
        Let_def of1 off_def[symmetric] twb_def[symmetric])
qed

text \<open>
  An example beyond the array: when the blocks 0 to 11 are taken and a file is empty,
  its first write receives block 12. The number 12 goes into slot 11 of \<open>i_block\<close>,
  which is the first word of the mutex of the i-node; the block is filled and written
  as any other.
\<close>

lemma write_direct_body_block_12:
  assumes fb: "free_blocks st = (\<lambda>b. if b \<le> 11 then TAKEN else FREE)"
    and isb: "is_Bytes (fs_data st 12)" and ino: "ino \<le> 26"
    and sz: "i_size (inode_table st ino) = 0" and off: "of_offset (open_file_table st fh) = 0"
  shows "\<exists>st' f. write_direct_body st ino fh hello 5 0 = Some (Inr (st', 0, 5))
           \<and> i_data_block (inode_table st' ino) = 12
           \<and> fs_data st' 12 = Bytes f \<and> f 4 = 111 \<and> f 5 = 255 \<and> f 1023 = 255"
proof -
  have ff: "first_free (free_blocks st) 1024 = Some 12"
    by (rule first_free_least) (auto simp: fb)
  have al: "i_size (inode_table st ino) mod 1024 = 0" by (simp add: sz)
  have "sizeof_inode_t * ino + 4 * 12 + 20 \<le> (8296::nat)" using ino by (simp add: sizeof_inode_t_def)
  from write_direct_body_total[OF al ff isb this, of fh hello 5 0]
  obtain st' ws' bw' where body: "write_direct_body st ino fh hello 5 0 = Some (Inr (st', ws', bw'))"
    by blast
  from body al obtain r st1 where ins: "direct_block_insert st ino = Some (r, st1)" and r: "r \<noteq> -1"
    by (auto simp: write_direct_body_def split: option.splits if_splits)
  from direct_block_insert_SomeD[OF ins r]
  have of1: "open_file_table st1 = open_file_table st" by blast
  have w: "ws' = 0" "bw' = 5"
    using body r
    by (auto simp: write_direct_body_def al ins of1 off Let_def split: option.splits if_splits)
  from write_direct_body_alloc[OF body al]
  obtain b f where "first_free (free_blocks st) DATA_BLOCKS = Some b"
    and db: "i_data_block (inode_table st' ino) = int b"
    and fd: "fs_data st' b = Bytes f"
    and c: "\<forall>k. k < 1024 \<longrightarrow> f k = (if unat (of_offset (open_file_table st fh) mod 1024) \<le> k
                           \<and> k < unat (of_offset (open_file_table st fh) mod 1024) + unat (bw' - 0)
                        then hello (unat (0::size_t) + (k - unat (of_offset (open_file_table st fh) mod 1024)))
                        else -1)" by blast
  then have b: "b = 12" using ff by simp
  have "f 4 = 111" "f 5 = 255" "f 1023 = 255" using c by (simp_all add: off w hello_def)
  then show ?thesis using body db fd unfolding b w by auto
qed

text \<open>
  The byte \<open>k\<close> of data block \<open>b\<close>, and the state after \<open>tfs_init\<close>, the creation of a file
  and one write through the handle of that open.
\<close>

definition data_byte :: "fs_state \<Rightarrow> nat \<Rightarrow> nat \<Rightarrow> byte option" where
  "data_byte st b k = (case fs_data st b of Bytes f \<Rightarrow> Some (f k) | Dir es \<Rightarrow> None)"

definition write_new_file :: "string \<Rightarrow> (nat \<Rightarrow> byte) \<Rightarrow> size_t \<Rightarrow> (int \<times> fs_state) option" where
  "write_new_file path buf n =
     (case tfs_init boot_state of (r0, s0) \<Rightarrow>
      case tfs_open s0 (Some path) TFS_O_CREAT of
        None \<Rightarrow> None
      | Some (fh, s1) \<Rightarrow> tfs_write s1 fh buf n)"

lemma tfs_write_fresh_direct:
  assumes inv: "dinv st ino fh buf d0 0"
    and fh: "get_open_file_entry fhandle = Some fh"
    and ino: "inode_get (of_inumber (open_file_table st fh)) = Some ino"
    and n: "0 < unat n" "unat n \<le> 10240"
  shows "\<exists>st'. tfs_write st fhandle buf n = Some (int (unat n), st')
            \<and> dinv st' ino fh buf d0 (unat n)"
proof -
  have sz0: "i_size (inode_table st ino) = 0"
    using inv by (simp add: dinv_def unat_eq_0)
  have n0: "n \<noteq> 0" using n by (auto simp: unat_eq_0)
  have inv0: "dinv st ino fh buf d0 (1024 * 0)" using inv by simp
  have le: "n \<le> 10240" using n by (simp add: word_le_nat_alt)
  have n2: "unat n \<le> 272384" using n by linarith
  from direct_loop[OF inv0, of n 0] n
  obtain st' where l: "write_direct_loop st ino fh buf n 0 0 = Some (n, st')"
    and inv': "dinv st' ino fh buf d0 (unat n)" by auto
  have ne: "n \<noteq> -1" using n2 by (rule small_ne_m1)
  have "tfs_write st fhandle buf n = Some (sint n, st')"
    by (simp add: tfs_write_def n0 fh ino sz0 le tfs_write_direct_region_def l ne)
  then show ?thesis using inv' n2 by (auto simp: sint_small)
qed

lemma write_new_file_direct:
  assumes vp: "valid_pathname (Some path)" and n: "0 < unat n" "unat n \<le> 10240"
  shows "\<exists>st. write_new_file path buf n = Some (int (unat n), st)
           \<and> dinv st 1 0 buf (root_dir (tl path)) (unat n)"
proof -
  from tfs_write_fresh_direct[OF created_dinv, of 0 "tl path" n buf] n
  obtain s2 where w: "tfs_write (created_state (tl path)) 0 buf n = Some (int (unat n), s2)"
    and inv: "dinv s2 1 0 buf (root_dir (tl path)) (unat n)"
    by (auto simp: get_open_file_entry_def valid_file_handle_def inode_get_def valid_inumber_def
        created_state_def)
  have "write_new_file path buf n = Some (int (unat n), s2)"
    by (simp add: write_new_file_def tfs_init_boot(1) open_create_init[OF vp] w)
  with inv show ?thesis by blast
qed

lemma dinv_unwritten:
  assumes "dinv st ino fh buf d0 s" and "s \<le> j" and "j < 1024 * ((s + 1023) div 1024)"
  shows "data_byte st (j div 1024 + 1) (j mod 1024) = Some 255"
proof -
  have "is_Bytes (fs_data st (j div 1024 + 1))" using assms(1) by (simp add: dinv_def)
  then obtain f where f: "fs_data st (j div 1024 + 1) = Bytes f"
    by (cases "fs_data st (j div 1024 + 1)") auto
  have "bytes_of (fs_data st (j div 1024 + 1)) (j mod 1024) = -1"
    using assms by (simp add: dinv_def)
  then have "f (j mod 1024) = 255" unfolding f by simp
  then show ?thesis unfolding data_byte_def f by simp
qed

lemma write_1500_second_block:
  assumes vp: "valid_pathname (Some path)" and k: "476 \<le> k" "k < 1024"
  shows "\<exists>st. write_new_file path buf 1500 = Some (1500, st) \<and> data_byte st 2 k = Some 255"
proof -
  from write_new_file_direct[OF vp, of 1500 buf]
  obtain st where w: "write_new_file path buf 1500 = Some (1500, st)"
    and inv: "dinv st 1 0 buf (root_dir (tl path)) 1500" by auto
  have d: "data_byte st ((1024 + k) div 1024 + 1) ((1024 + k) mod 1024) = Some 255"
    using k by (intro dinv_unwritten[OF inv]) simp_all
  have e: "(1024 + k) div 1024 + 1 = 2" "(1024 + k) mod 1024 = k"
    using k by (simp_all add: div_nat_eqI)
  from d have "data_byte st 2 k = Some 255" unfolding e .
  with w show ?thesis by blast
qed

lemma write_1500_all_second_block:
  assumes vp: "valid_pathname (Some path)"
  shows "\<exists>st. write_new_file path buf 1500 = Some (1500, st)
           \<and> (\<forall>k. 476 \<le> k \<and> k < 1024 \<longrightarrow> data_byte st 2 k = Some 255)"
proof -
  from write_new_file_direct[OF vp, of 1500 buf]
  obtain st where w: "write_new_file path buf 1500 = Some (1500, st)" by auto
  have "data_byte st 2 k = Some 255" if "476 \<le> k" "k < 1024" for k
    using write_1500_second_block[OF vp that, of buf] w by auto
  with w show ?thesis by blast
qed

text \<open>
  Claim C3 says that a newly allocated block is zeroed, so that after a write of 1500
  bytes from offset 0 the bytes 477..1023 of the second block are 0. As stated it fails:
  \<open>direct_block_insert\<close> calls \<open>memset(block, -1, BLOCK_SIZE)\<close>, which fills the block
  with the byte \<open>0xFF\<close>. After \<open>tfs_init\<close>, the creation of \<open>/a\<close> and a write of 1500
  bytes, byte 477 of data block 2 (the second block of the file) is 255.
\<close>

theorem unwritten_bytes_counterexample:
  "\<exists>st. write_new_file ''/a'' hello 1500 = Some (1500, st) \<and> data_byte st 2 477 = Some 255"
  using write_1500_second_block[of "''/a''" 477 hello]
  by (simp add: valid_pathname_def)

text \<open>
  Claim C3, amended. Whenever a pass of the loop of \<open>tfs_write_direct_region\<close> runs to
  its end, it allocates a data block exactly when \<open>i_size mod BLOCK_SIZE = 0\<close>: then the
  first free block, whatever its number, becomes the working block of the i-node, and
  of its \<open>BLOCK_SIZE\<close> bytes those outside the range copied from the buffer hold \<open>0xFF\<close>
  (the fill of \<open>direct_block_insert\<close>, made before the copy); otherwise the allocation
  map is unchanged. Such a pass does run to its end whenever a block of raw bytes is
  free and the store of its number through \<open>i_block\<close> stays inside \<open>inode_table_s\<close>
  (as it does, for every block number, for the i-nodes 0 to 26). So the bytes of a block
  that were never written hold \<open>0xFF\<close>: after \<open>tfs_init\<close>, the creation of a file and a
  write of 1500 bytes from offset 0, the bytes 476..1023 of the second block (data
  block 2) are all 255.
\<close>

theorem new_direct_block_filled:
  "(write_direct_body st ino fh buffer ws bw = Some (Inr (st', ws', bw')) \<longrightarrow>
      (if i_size (inode_table st ino) mod BLOCK_SIZE = 0
       then \<exists>b f. first_free (free_blocks st) DATA_BLOCKS = Some b
              \<and> free_blocks st' = (free_blocks st)(b := TAKEN)
              \<and> i_data_block (inode_table st' ino) = int b
              \<and> fs_data st' b = Bytes f
              \<and> (\<forall>k. k < BLOCK_SIZE \<longrightarrow>
                    f k = (if unat (of_offset (open_file_table st fh) mod BLOCK_SIZE) \<le> k
                              \<and> k < unat (of_offset (open_file_table st fh) mod BLOCK_SIZE)
                                      + unat (bw' - bw)
                           then buffer (unat bw
                                  + (k - unat (of_offset (open_file_table st fh) mod BLOCK_SIZE)))
                           else 255))
       else free_blocks st' = free_blocks st))
   \<and> (i_size (inode_table st ino) mod BLOCK_SIZE = 0
        \<and> first_free (free_blocks st) DATA_BLOCKS = Some blk \<and> is_Bytes (fs_data st blk)
        \<and> sizeof_inode_t * ino + INT_SIZE * blk + 20 \<le> 8296 \<longrightarrow>
        (\<exists>st1 ws1 bw1. write_direct_body st ino fh buffer ws bw = Some (Inr (st1, ws1, bw1))))
   \<and> (valid_pathname (Some path) \<longrightarrow>
        (\<exists>st2. write_new_file path buf 1500 = Some (1500, st2)
           \<and> (\<forall>k. 476 \<le> k \<and> k < BLOCK_SIZE \<longrightarrow> data_byte st2 2 k = Some 255)))"
proof (intro conjI impI)
  assume body: "write_direct_body st ino fh buffer ws bw = Some (Inr (st', ws', bw'))"
  show "if i_size (inode_table st ino) mod BLOCK_SIZE = 0
       then \<exists>b f. first_free (free_blocks st) DATA_BLOCKS = Some b
              \<and> free_blocks st' = (free_blocks st)(b := TAKEN)
              \<and> i_data_block (inode_table st' ino) = int b
              \<and> fs_data st' b = Bytes f
              \<and> (\<forall>k. k < BLOCK_SIZE \<longrightarrow>
                    f k = (if unat (of_offset (open_file_table st fh) mod BLOCK_SIZE) \<le> k
                              \<and> k < unat (of_offset (open_file_table st fh) mod BLOCK_SIZE)
                                      + unat (bw' - bw)
                           then buffer (unat bw
                                  + (k - unat (of_offset (open_file_table st fh) mod BLOCK_SIZE)))
                           else 255))
       else free_blocks st' = free_blocks st"
  proof (cases "i_size (inode_table st ino) mod BLOCK_SIZE = 0")
    case True
    have m: "(-1::byte) = 255" by simp
    from write_direct_body_alloc[OF body True] show ?thesis
      unfolding m using True by simp
  next
    case False
    from write_direct_body_no_alloc[OF body False] show ?thesis using False by simp
  qed
next
  assume "i_size (inode_table st ino) mod BLOCK_SIZE = 0
        \<and> first_free (free_blocks st) DATA_BLOCKS = Some blk \<and> is_Bytes (fs_data st blk)
        \<and> sizeof_inode_t * ino + INT_SIZE * blk + 20 \<le> 8296"
  then show "\<exists>st1 ws1 bw1. write_direct_body st ino fh buffer ws bw = Some (Inr (st1, ws1, bw1))"
    by (intro write_direct_body_total[of st ino blk]) simp_all
next
  assume "valid_pathname (Some path)"
  then show "\<exists>st2. write_new_file path buf 1500 = Some (1500, st2)
           \<and> (\<forall>k. 476 \<le> k \<and> k < BLOCK_SIZE \<longrightarrow> data_byte st2 2 k = Some 255)"
    by (rule write_1500_all_second_block)
qed

theorem new_direct_block_filled_witness:
  "(\<exists>st' f. write_direct_body (created_state ''a'') 1 0 hello 5 0 = Some (Inr (st', 0, 5))
       \<and> free_blocks st' 1 = TAKEN \<and> fs_data st' 1 = Bytes f \<and> f 4 = 111 \<and> f 5 = 255)
   \<and> (\<exists>st2. write_new_file ''/a'' hello 1500 = Some (1500, st2)
         \<and> data_byte st2 2 1000 = Some 255)"
proof -
  have ff: "first_free (free_blocks (created_state ''a'')) DATA_BLOCKS = Some 1"
    by (simp add: created_state_def tfs_init_boot(2) boot_state_def first_free_1)
  have z: "i_size (inode_table (created_state ''a'') 1) mod 1024 = 0"
    "unat (of_offset (open_file_table (created_state ''a'') 0) mod 1024) = 0"
    by (simp_all add: created_state_def)
  have isb: "is_Bytes (fs_data (created_state ''a'') 1)"
    by (simp add: created_state_def tfs_init_boot(2) boot_state_def)
  have ins: "sizeof_inode_t * 1 + 4 * 1 + 20 \<le> (8296::nat)" by (simp add: sizeof_inode_t_def)
  have vp: "valid_pathname (Some ''/a'')" by (simp add: valid_pathname_def)
  have inv: "dinv (created_state ''a'') 1 0 hello (root_dir ''a'') (1024 * 0)"
    using created_dinv[of "''a''" hello] by simp
  from direct_step[OF inv, of 5 0]
  obtain s1 where b1: "write_direct_body (created_state ''a'') 1 0 hello 5 0 = Some (Inr (s1, 0, 5))"
    by auto
  note t = new_direct_block_filled
    [of "created_state ''a''" 1 0 hello 5 0 _ _ _ 1 "''/a''" hello]
  from conjunct1[OF conjunct2[OF t], THEN mp, OF conjI[OF z(1) conjI[OF ff conjI[OF isb ins]]]]
  obtain st' ws' bw' where
    body: "write_direct_body (created_state ''a'') 1 0 hello 5 0 = Some (Inr (st', ws', bw'))"
    by blast
  have w: "ws' = 0" "bw' = 5" using body b1 by simp_all
  from conjunct1[OF t, THEN mp, OF body]
  obtain b f where b: "first_free (free_blocks (created_state ''a'')) DATA_BLOCKS = Some b"
    and fb: "free_blocks st' = (free_blocks (created_state ''a''))(b := TAKEN)"
    and fd': "fs_data st' b = Bytes f"
    and c: "\<forall>k. k < 1024 \<longrightarrow> f k = (if 0 \<le> k \<and> k < 0 + unat (bw' - 0)
                 then hello (unat (0::size_t) + (k - 0)) else 255)"
    by (simp only: z simp_thms if_True) blast
  have b1': "b = 1" using b ff by simp
  have fd: "fs_data st' 1 = Bytes f" using fd' unfolding b1' .
  have "f 4 = 111" "f 5 = 255" using c by (simp_all add: w hello_def)
  moreover have "free_blocks st' 1 = TAKEN" by (simp add: fb b1')
  moreover from conjunct2[OF conjunct2[OF t], THEN mp, OF vp]
  obtain st2 where "write_new_file ''/a'' hello 1500 = Some (1500, st2)"
    "data_byte st2 2 1000 = Some 255"
    by auto
  ultimately show ?thesis using body fd unfolding w by blast
qed

section \<open>A file of five bytes\<close>

text \<open>
  The state after \<open>tfs_init\<close>, the creation of \<open>/a\<close> and a write of the five bytes of
  \<open>hello\<close> through the handle 0 of that open: the file has i-number 1, holds data block
  1, and the offset of the handle is at its end.
\<close>

definition hello_state :: fs_state where
  "hello_state = (created_state ''a'')
     \<lparr>inode_table := (inode_table (created_state ''a''))
        (1 := \<lparr>i_node_type = T_FILE, i_size = 5, i_data_block = 1, i_block = (\<lambda>k. -1)(0 := 1)\<rparr>),
      free_blocks := (free_blocks (created_state ''a''))(1 := TAKEN),
      fs_data := (fs_data (created_state ''a''))
        (1 := Bytes (\<lambda>k. if k < 5 then hello k else if k < 1024 then -1 else 0)),
      open_file_table := (open_file_table (created_state ''a''))
        (0 := \<lparr>of_inumber = 1, of_offset = 5\<rparr>)\<rparr>"

lemma hello_state_reached:
  "tfs_write (created_state ''a'') 0 hello 5 = Some (5, hello_state)"
proof -
  have ff: "first_free (free_blocks (created_state ''a'')) 1024 = Some (Suc 0)"
    by (simp add: created_state_def tfs_init_boot(2) boot_state_def first_free_1)
  have l0: "write_direct_loop st ino fh buf 0 bw i = Some (bw, st)" for st ino fh buf bw i
    by (subst write_direct_loop.simps) simp
  show ?thesis
    apply (simp add: tfs_write_def get_open_file_entry_def valid_file_handle_def inode_get_def
        valid_inumber_def created_state_def tfs_write_direct_region_def)
    apply (subst write_direct_loop.simps)
    apply (simp add: write_direct_body_def direct_block_insert_def data_block_alloc_def
        first_free_1 Let_def data_block_get_def valid_block_number_def
        memset_block_def store_i_block_def memcpy_to_block_def inode_upd_def file_upd_def
        tfs_init_boot(2) boot_state_def l0 hello_state_def created_state_def cong: if_cong)
    done
qed

text \<open>
  Claim C9 on that file: the handle 0 stands at the end of the file after the write,
  and a read of five bytes returns 0 and changes neither the state nor the buffer.
\<close>

theorem tfs_read_at_end_of_file_witness:
  "tfs_read hello_state 0 zero_buffer 5 = Some (0, hello_state, zero_buffer)"
  by (rule tfs_read_at_end_of_file)
     (simp_all add: valid_file_handle_def valid_inumber_def hello_state_def)

section \<open>Opening with \<open>TFS_O_TRUNC\<close>\<close>















section \<open>Creating a file when the directory entry cannot be added\<close>

lemma add_dir_entry_fail:
  assumes "add_dir_entry st inumber sub_inumber sub_name = Some (-1, st')"
  shows "st' = st"
  using assms
  by (auto simp: add_dir_entry_def Let_def split: if_splits option.splits block.splits)

lemma inode_all_upd:
  "(r::inode)\<lparr>i_node_type := a, i_size := b, i_data_block := c, i_block := d\<rparr>
     = \<lparr>i_node_type = a, i_size = b, i_data_block = c, i_block = d\<rparr>"
  by (cases r) simp

lemma inode_create_file:
  assumes "inode_create st T_FILE = (inum, st1)" and "inum \<noteq> -1"
  shows "\<exists>i. first_free (freeinode_ts st) INODE_TABLE_SIZE = Some i \<and> inum = int i
           \<and> st1 = st\<lparr>freeinode_ts := (freeinode_ts st)(i := TAKEN),
                     inode_table := (inode_table st)
                       (i := \<lparr>i_node_type = T_FILE, i_size = 0, i_data_block = -1,
                              i_block = (\<lambda>k. -1)\<rparr>)\<rparr>"
  using assms
  by (auto simp: inode_create_def Let_def inode_all_upd split: option.splits)

text \<open>
  Claim C7. Let the path be valid and not resolve, and let \<open>TFS_O_CREAT\<close> be set. If
  \<open>inode_create\<close> returns an i-number and \<open>add_dir_entry\<close> then fails, \<open>tfs_open\<close> returns
  \<open>-1\<close> and the slot of the new i-node is free again: the allocation map of the i-nodes
  is the one before the call. Nothing else is undone: the state is the one
  \<open>inode_create\<close> left, but for that slot of the map (the fields of the i-node keep the
  values \<open>inode_create\<close> gave them).
\<close>

theorem create_rollback:
  assumes "valid_pathname (Some path)"
    and "tfs_lookup st (Some path) = Some r" and "r < 0"
    and "flags AND TFS_O_CREAT \<noteq> 0"
    and "inode_create st T_FILE = (inum, st1)" and "inum \<noteq> -1"
    and "add_dir_entry st1 ROOT_DIR_INUM inum (tl path) = Some (-1, st2)"
  shows "\<exists>st'. tfs_open st (Some path) flags = Some (-1, st')
           \<and> freeinode_ts st' (nat inum) = FREE
           \<and> st' = st1\<lparr>freeinode_ts := (freeinode_ts st1)(nat inum := FREE)\<rparr>
           \<and> freeinode_ts st' = freeinode_ts st"
proof -
  from inode_create_file[OF assms(5,6)]
  obtain i where ff: "first_free (freeinode_ts st) INODE_TABLE_SIZE = Some i"
    and inum: "inum = int i"
    and st1: "st1 = st\<lparr>freeinode_ts := (freeinode_ts st)(i := TAKEN),
                     inode_table := (inode_table st)
                       (i := \<lparr>i_node_type = T_FILE, i_size = 0, i_data_block = -1,
                              i_block = (\<lambda>k. -1)\<rparr>)\<rparr>" by blast
  have i: "i < 50" "freeinode_ts st i = FREE" using ff by (simp_all add: first_free_Some_iff)
  have st2: "st2 = st1" using assms(7) by (rule add_dir_entry_fail)
  have del: "inode_delete st1 inum = (0, st1\<lparr>freeinode_ts := (freeinode_ts st1)(nat inum := FREE)\<rparr>)"
    using i by (simp add: inode_delete_def valid_inumber_def inum st1 Let_def)
  have "tfs_open st (Some path) flags
      = Some (-1, st1\<lparr>freeinode_ts := (freeinode_ts st1)(nat inum := FREE)\<rparr>)"
    using assms(1-4,6) by (simp add: tfs_open_def assms(5) assms(7)[unfolded st2] del)
  moreover have "(freeinode_ts st1)(nat inum := FREE) = freeinode_ts st"
    using i by (auto simp: st1 inum)
  ultimately show ?thesis using i by (simp add: inum)
qed

text \<open>
  A state in which the root directory is full: seven files \<open>a\<close> ... \<open>g\<close> with the
  i-numbers 1 ... 7, none of them written or open.
\<close>

definition full_dir_state :: fs_state where
  "full_dir_state = init_state
     \<lparr>freeinode_ts := (\<lambda>i. if i \<le> 7 then TAKEN else FREE),
      inode_table := (\<lambda>i. if 1 \<le> i \<and> i \<le> 7
         then \<lparr>i_node_type = T_FILE, i_size = 0, i_data_block = -1, i_block = (\<lambda>k. -1)\<rparr>
         else inode_table init_state i),
      fs_data := (fs_data init_state)
        (0 := Dir [\<lparr>d_name = ''a'', d_inumber = 1\<rparr>, \<lparr>d_name = ''b'', d_inumber = 2\<rparr>,
                   \<lparr>d_name = ''c'', d_inumber = 3\<rparr>, \<lparr>d_name = ''d'', d_inumber = 4\<rparr>,
                   \<lparr>d_name = ''e'', d_inumber = 5\<rparr>, \<lparr>d_name = ''f'', d_inumber = 6\<rparr>,
                   \<lparr>d_name = ''g'', d_inumber = 7\<rparr>])\<rparr>"

theorem create_rollback_witness:
  "tfs_open full_dir_state (Some ''/h'') TFS_O_CREAT
     = Some (-1, full_dir_state\<lparr>inode_table := (inode_table full_dir_state)
         (8 := \<lparr>i_node_type = T_FILE, i_size = 0, i_data_block = -1, i_block = (\<lambda>k. -1)\<rparr>)\<rparr>)
   \<and> freeinode_ts full_dir_state 8 = FREE"
proof -
  define st1 where "st1 = full_dir_state
      \<lparr>freeinode_ts := (freeinode_ts full_dir_state)(8 := TAKEN),
       inode_table := (inode_table full_dir_state)
         (8 := \<lparr>i_node_type = T_FILE, i_size = 0, i_data_block = -1, i_block = (\<lambda>k. -1)\<rparr>)\<rparr>"
  have vp: "valid_pathname (Some ''/h'')" by (simp add: valid_pathname_def)
  have root: "inode_table full_dir_state 0 = inode_table init_state 0"
    by (simp add: full_dir_state_def)
  have lk: "tfs_lookup full_dir_state (Some ''/h'') = Some (-1)"
    by (simp add: tfs_lookup_def vp find_in_dir_def valid_inumber_def root tfs_init_boot(2)
        boot_state_def data_block_get_def valid_block_number_def)
       (simp add: full_dir_state_def strncmp_eq_def)
  have ff: "first_free (freeinode_ts full_dir_state) 50 = Some 8"
    by (rule first_free_least) (auto simp: full_dir_state_def)
  have ic: "inode_create full_dir_state T_FILE = (8, st1)"
    by (simp add: inode_create_def ff Let_def st1_def inode_all_upd)
  have ad: "add_dir_entry st1 ROOT_DIR_INUM 8 (tl ''/h'') = Some (-1, st1)"
    by (simp add: add_dir_entry_def valid_inumber_def st1_def root tfs_init_boot(2)
        boot_state_def data_block_get_def valid_block_number_def)
       (simp add: full_dir_state_def)
  from create_rollback[OF vp lk _ _ ic _ ad, of TFS_O_CREAT]
  have "tfs_open full_dir_state (Some ''/h'') TFS_O_CREAT
      = Some (-1, st1\<lparr>freeinode_ts := (freeinode_ts st1)(8 := FREE)\<rparr>)"
    by simp
  moreover have e: "(freeinode_ts st1)(8 := FREE) = freeinode_ts full_dir_state"
    by (auto simp: st1_def full_dir_state_def)
  moreover have "st1\<lparr>freeinode_ts := (freeinode_ts st1)(8 := FREE)\<rparr>
      = full_dir_state\<lparr>inode_table := (inode_table full_dir_state)
         (8 := \<lparr>i_node_type = T_FILE, i_size = 0, i_data_block = -1, i_block = (\<lambda>k. -1)\<rparr>)\<rparr>"
    unfolding e by (simp add: st1_def)
  moreover have "freeinode_ts full_dir_state 8 = FREE" by (simp add: full_dir_state_def)
  ultimately show ?thesis by simp
qed

end
